theory Spec2Isabelle
  imports Complex_Main
begin

section \<open>Tensors over the reals\<close>

text \<open>
  The flow of \<^verbatim>\<open>a3_nf_template.py\<close> works on tensors of shape \<open>(B, D)\<close>: a batch of \<open>B\<close>
  examples, each a vector of \<open>D\<close> numbers. Every tensor operation of the core (elementwise
  arithmetic against the \<open>(1, D)\<close> mask, \<open>nn.Linear\<close> over the last dimension,
  \<open>split(_, dim=1)\<close>, \<open>torch.sum(_, dim=1)\<close>) treats the rows of a batch independently, so the
  operations are defined on one row, a \<open>real list\<close>, with the per-example \<open>ldj\<close> entry a
  \<open>real\<close>; \<open>Model.forward\<close> and \<open>Model.sample\<close> map them over the rows of the batch.

  Numbers are real numbers: rounding, overflow and the values \<open>inf\<close> and \<open>nan\<close> of the
  floating-point tensors have no counterpart. The one place where the source can produce
  them from finite input, \<open>torch.log\<close> of a number that is not positive, is an error value.
  A run-time failure of the tensor library (incompatible shapes, a tuple unpacking of the
  wrong length) is an error value as well.
\<close>

datatype error = ShapeError | ValueError | NonFinite

type_synonym vec = "real list"

definition rbind :: "error + 'a \<Rightarrow> ('a \<Rightarrow> error + 'b) \<Rightarrow> error + 'b" where
  "rbind r f = (case r of Inl e \<Rightarrow> Inl e | Inr v \<Rightarrow> f v)"

text \<open>
  A binary elementwise operation, with the broadcasting rule of the tensor library along
  the last dimension: equal sizes go pointwise, a size of one is stretched, anything else
  is refused.
\<close>

definition broadcast :: "(real \<Rightarrow> real \<Rightarrow> real) \<Rightarrow> vec \<Rightarrow> vec \<Rightarrow> error + vec" where
  "broadcast f xs ys =
     (if length xs = length ys then Inr (map2 f xs ys)
      else if length xs = 1 then Inr (map (f (hd xs)) ys)
      else if length ys = 1 then Inr (map (\<lambda>x. f x (hd ys)) xs)
      else Inl ShapeError)"

text \<open>\<open>1 - t\<close> and \<open>-t\<close> for a tensor \<open>t\<close>, and the elementwise functions.\<close>

definition one_minus :: "vec \<Rightarrow> vec" where
  "one_minus xs = map (\<lambda>x. 1 - x) xs"

definition neg :: "vec \<Rightarrow> vec" where
  "neg xs = map uminus xs"

definition torch_exp :: "vec \<Rightarrow> vec" where
  "torch_exp xs = map exp xs"

definition torch_tanh :: "vec \<Rightarrow> vec" where
  "torch_tanh xs = map tanh xs"

definition sigmoid :: "real \<Rightarrow> real" where
  "sigmoid x = 1 / (1 + exp (- x))"

definition torch_sigmoid :: "vec \<Rightarrow> vec" where
  "torch_sigmoid xs = map sigmoid xs"

definition torch_log :: "vec \<Rightarrow> error + vec" where
  "torch_log xs = (if \<forall>x \<in> set xs. 0 < x then Inr (map ln xs) else Inl NonFinite)"

text \<open>
  \<open>t.split(n, dim=1)\<close>: chunks of \<open>n\<close> columns, the last one shorter when \<open>n\<close> does not
  divide the width; at least one chunk; a chunk size of zero is refused unless the width
  is zero. \<open>h, t = ...\<close> unpacks exactly two chunks.
\<close>

definition split :: "nat \<Rightarrow> vec \<Rightarrow> error + vec list" where
  "split n xs =
     (if n = 0 \<and> xs \<noteq> [] then Inl ShapeError
      else let k = (if n = 0 then 1 else max ((length xs + n - 1) div n) 1)
           in Inr (map (\<lambda>i. take n (drop (i * n) xs)) [0..<k]))"

definition unpack2 :: "vec list \<Rightarrow> error + (vec \<times> vec)" where
  "unpack2 cs = (case cs of [h, t] \<Rightarrow> Inr (h, t) | _ \<Rightarrow> Inl ValueError)"

section \<open>The network of a coupling layer\<close>

text \<open>
  \<open>nn.Linear(in_features, out_features)\<close> holds a weight of shape
  \<open>(out_features, in_features)\<close> and a bias of shape \<open>(out_features)\<close>, and maps \<open>x\<close> to
  \<open>x W\<^sup>T + b\<close>. \<open>torch.nn.Sequential\<close> is the list of its modules, applied in order.
\<close>

record Linear =
  in_features :: nat
  out_features :: nat
  weight :: "vec list"
  bias :: vec

datatype module = Lin Linear | ReLU

definition dot :: "vec \<Rightarrow> vec \<Rightarrow> real" where
  "dot w x = sum_list (map2 (*) w x)"

definition Linear_forward :: "Linear \<Rightarrow> vec \<Rightarrow> error + vec" where
  "Linear_forward l x =
     (if length x = in_features l then Inr (map2 (\<lambda>w b. dot w x + b) (weight l) (bias l))
      else Inl ShapeError)"

definition relu :: "vec \<Rightarrow> vec" where
  "relu xs = map (max 0) xs"

fun module_forward :: "module \<Rightarrow> vec \<Rightarrow> error + vec" where
  "module_forward (Lin l) x = Linear_forward l x"
| "module_forward ReLU x = Inr (relu x)"

fun Sequential_forward :: "module list \<Rightarrow> vec \<Rightarrow> error + vec" where
  "Sequential_forward [] x = Inr x"
| "Sequential_forward (m # ms) x = rbind (module_forward m x) (Sequential_forward ms)"

text \<open>
  The parameters \<open>nn.Linear\<close> starts with are drawn at random by the library; the draw is an
  argument here: the entry of the weight at each position and of the bias at each index.
\<close>

definition Linear_init :: "nat \<Rightarrow> nat \<Rightarrow> (nat \<Rightarrow> nat \<Rightarrow> real) \<times> (nat \<Rightarrow> real) \<Rightarrow> Linear" where
  "Linear_init n_in n_out draw =
     \<lparr> in_features = n_in, out_features = n_out,
       weight = map (\<lambda>i. map (fst draw i) [0..<n_in]) [0..<n_out],
       bias = map (snd draw) [0..<n_out] \<rparr>"

text \<open>\<^verbatim>\<open>weight.data.zero_()\<close> and \<^verbatim>\<open>bias.data.zero_()\<close> on a module of the network.\<close>

fun zero_data :: "module \<Rightarrow> module" where
  "zero_data (Lin l) = Lin (l \<lparr> weight := map (map (\<lambda>_. 0)) (weight l), bias := map (\<lambda>_. 0) (bias l) \<rparr>)"
| "zero_data ReLU = ReLU"

section \<open>Coupling layer\<close>

record Coupling =
  n_hidden :: nat
  c_in :: nat
  mask :: vec
  nn :: "module list"

definition Coupling_init ::
  "nat \<Rightarrow> vec \<Rightarrow> nat \<Rightarrow>
   ((nat \<Rightarrow> nat \<Rightarrow> real) \<times> (nat \<Rightarrow> real)) \<times> ((nat \<Rightarrow> nat \<Rightarrow> real) \<times> (nat \<Rightarrow> real)) \<times>
   ((nat \<Rightarrow> nat \<Rightarrow> real) \<times> (nat \<Rightarrow> real)) \<Rightarrow> Coupling" where
  "Coupling_init channels msk hidden draws =
     (case draws of (d0, d2, d4) \<Rightarrow>
        let net = [Lin (Linear_init channels hidden d0), ReLU,
                   Lin (Linear_init hidden hidden d2), ReLU,
                   Lin (Linear_init hidden (channels * 2) d4)]
        in \<lparr> n_hidden = hidden, c_in = channels, mask = msk,
             nn = butlast net @ [zero_data (last net)] \<rparr>)"

text \<open>
  The first line of \<open>Coupling.forward\<close>:
  \<^verbatim>\<open>h, t = self.nn(self.mask * z).split(self.c_in, dim=1)\<close>.
\<close>

definition network_output :: "Coupling \<Rightarrow> vec \<Rightarrow> error + (vec \<times> vec)" where
  "network_output c z =
     rbind (broadcast (*) (mask c) z) (\<lambda>mz.
     rbind (Sequential_forward (nn c) mz) (\<lambda>y.
     rbind (split (c_in c) y) unpack2))"

text \<open>
  The two branches follow the order in which the source evaluates its operands. The
  source updates \<open>ldj\<close> in place (\<^verbatim>\<open>ldj += ...\<close>) and returns it; here the updated value
  is the second component of the result.
\<close>

definition Coupling_forward :: "Coupling \<Rightarrow> vec \<Rightarrow> real \<Rightarrow> bool \<Rightarrow> error + (vec \<times> real)" where
  "Coupling_forward c z ldj reverse =
     rbind (network_output c z) (\<lambda>(h, t).
       let log_scale = torch_tanh h in
       if \<not> reverse then
         rbind (broadcast (*) (mask c) z) (\<lambda>mz.
         rbind (broadcast (*) z (torch_exp log_scale)) (\<lambda>a.
         rbind (broadcast (+) a t) (\<lambda>b.
         rbind (broadcast (*) (one_minus (mask c)) b) (\<lambda>u.
         rbind (broadcast (+) mz u) (\<lambda>z'.
         rbind (broadcast (*) (one_minus (mask c)) log_scale) (\<lambda>s.
           Inr (z', ldj + sum_list s)))))))
       else
         rbind (broadcast (*) (mask c) z) (\<lambda>mz.
         rbind (broadcast (-) z t) (\<lambda>a.
         rbind (broadcast (*) (one_minus (mask c)) a) (\<lambda>b.
         rbind (broadcast (*) b (torch_exp (neg log_scale))) (\<lambda>u.
         rbind (broadcast (+) mz u) (\<lambda>z'.
           Inr (z', ldj)))))))"

section \<open>Flow\<close>

text \<open>
  \<open>get_mask\<close>: the 28 by 28 checkerboard, one where \<open>i + j\<close> is even, flattened row by row
  to shape \<open>(1, 784)\<close>.
\<close>

definition get_mask :: vec where
  "get_mask =
     concat (map (\<lambda>i. map (\<lambda>j. if (i + j) mod 2 = 0 then 1 else 0) [0..<28]) [0..<(28::nat)])"

record Flow =
  layers :: "Coupling list"
  z_shape :: "nat list"

text \<open>
  \<open>Flow(shape, n_flows)\<close> unpacks \<open>shape\<close> as a one-element sequence and appends, \<open>n_flows\<close>
  times, a coupling layer on the mask and one on its complement. \<open>draws k\<close> is the random
  draw of the \<open>k\<close>-th layer's network.
\<close>

definition Flow_init ::
  "nat list \<Rightarrow> nat \<Rightarrow>
   (nat \<Rightarrow> ((nat \<Rightarrow> nat \<Rightarrow> real) \<times> (nat \<Rightarrow> real)) \<times> ((nat \<Rightarrow> nat \<Rightarrow> real) \<times> (nat \<Rightarrow> real)) \<times>
          ((nat \<Rightarrow> nat \<Rightarrow> real) \<times> (nat \<Rightarrow> real))) \<Rightarrow> error + Flow" where
  "Flow_init shape n_flows draws =
     (case shape of
        [channels] \<Rightarrow>
          Inr \<lparr> layers = concat (map (\<lambda>i.
                   [Coupling_init channels get_mask 1024 (draws (2 * i)),
                    Coupling_init channels (one_minus get_mask) 1024 (draws (2 * i + 1))])
                   [0..<n_flows]),
                z_shape = [channels] \<rparr>
      | _ \<Rightarrow> Inl ValueError)"

fun apply_layers :: "Coupling list \<Rightarrow> bool \<Rightarrow> vec \<Rightarrow> real \<Rightarrow> error + (vec \<times> real)" where
  "apply_layers [] reverse z logdet = Inr (z, logdet)"
| "apply_layers (layer # ls) reverse z logdet =
     rbind (Coupling_forward layer z logdet reverse) (\<lambda>(z', logdet'). apply_layers ls reverse z' logdet')"

definition Flow_forward :: "Flow \<Rightarrow> vec \<Rightarrow> real \<Rightarrow> bool \<Rightarrow> error + (vec \<times> real)" where
  "Flow_forward f z logdet reverse =
     (if \<not> reverse then apply_layers (layers f) False z logdet
      else apply_layers (rev (layers f)) True z logdet)"

section \<open>Prior and random numbers\<close>

definition log_prior :: "vec \<Rightarrow> real" where
  "log_prior x = sum_list (map (\<lambda>v. - 0.5 * ln (2 * pi) - 0.5 * v ^ 2) x)"

text \<open>
  The random number generator of the library is a state: the uniform and the standard
  normal numbers it is going to produce, and how many it has produced. \<open>torch.rand_like\<close>
  and \<open>torch.randn\<close> read the next numbers and advance it.
\<close>

record generator =
  uniform :: "nat \<Rightarrow> real"
  normal :: "nat \<Rightarrow> real"
  pos :: nat

definition rand_like :: "vec \<Rightarrow> generator \<Rightarrow> vec \<times> generator" where
  "rand_like z g =
     (map (\<lambda>i. uniform g (pos g + i)) [0..<length z], g \<lparr> pos := pos g + length z \<rparr>)"

definition randn :: "nat \<Rightarrow> generator \<Rightarrow> vec \<times> generator" where
  "randn n g = (map (\<lambda>i. normal g (pos g + i)) [0..<n], g \<lparr> pos := pos g + n \<rparr>)"

text \<open>\<open>sample_prior(size)\<close> for \<open>size = (n, d)\<close>: \<open>n\<close> rows of \<open>d\<close> standard normal numbers.\<close>

fun sample_prior :: "nat \<Rightarrow> nat \<Rightarrow> generator \<Rightarrow> vec list \<times> generator" where
  "sample_prior 0 d g = ([], g)"
| "sample_prior (Suc n) d g =
     (case randn d g of (row, g') \<Rightarrow>
        case sample_prior n d g' of (rows, g'') \<Rightarrow> (row # rows, g''))"

section \<open>Likelihood model\<close>

record Model =
  flow :: Flow
  shape :: "nat list"

definition Model_init ::
  "nat list \<Rightarrow>
   (nat \<Rightarrow> ((nat \<Rightarrow> nat \<Rightarrow> real) \<times> (nat \<Rightarrow> real)) \<times> ((nat \<Rightarrow> nat \<Rightarrow> real) \<times> (nat \<Rightarrow> real)) \<times>
          ((nat \<Rightarrow> nat \<Rightarrow> real) \<times> (nat \<Rightarrow> real))) \<Rightarrow> error + Model" where
  "Model_init shp draws = rbind (Flow_init shp 4 draws) (\<lambda>f. Inr \<lparr> flow = f, shape = shp \<rparr>)"

definition dequantize :: "vec \<Rightarrow> generator \<Rightarrow> vec \<times> generator" where
  "dequantize z g = (case rand_like z g of (noise, g') \<Rightarrow> (map2 (+) z noise, g'))"

definition alpha :: real where
  "alpha = 1 / 100000"

text \<open>
  The four blocks of \<open>logit_normalize\<close>, under the names of their comments in the source;
  \<open>np.prod(z.size()[1:])\<close> is the width of the row.
\<close>

definition divide_by_256 :: "vec \<Rightarrow> real \<Rightarrow> vec \<times> real" where
  "divide_by_256 z logdet =
     (let z' = map (\<lambda>v. v / 256) z in (z', logdet - ln 256 * real (length z')))"

definition alpha_shrink :: "vec \<Rightarrow> vec" where
  "alpha_shrink z = map (\<lambda>v. v * (1 - alpha) + alpha * 0.5) z"

definition logit_normalize_step :: "vec \<Rightarrow> real \<Rightarrow> error + (vec \<times> real)" where
  "logit_normalize_step z logdet =
     (let z1 = alpha_shrink z in
      rbind (torch_log z1) (\<lambda>lz.
      rbind (torch_log (one_minus z1)) (\<lambda>l1z.
        Inr (map2 (-) lz l1z, logdet + sum_list (map2 (-) (neg lz) l1z)))))"

definition inverse_normalize :: "vec \<Rightarrow> real \<Rightarrow> error + (vec \<times> real)" where
  "inverse_normalize z logdet =
     (let z1 = torch_sigmoid z in
      rbind (torch_log z1) (\<lambda>lz.
      rbind (torch_log (one_minus z1)) (\<lambda>l1z.
        Inr (map (\<lambda>v. (v - alpha * 0.5) / (1 - alpha)) z1, logdet + sum_list (map2 (+) lz l1z)))))"

definition multiply_by_256 :: "vec \<Rightarrow> real \<Rightarrow> vec \<times> real" where
  "multiply_by_256 z logdet = (map (\<lambda>v. v * 256) z, logdet + ln 256 * real (length z))"

definition logit_normalize :: "vec \<Rightarrow> real \<Rightarrow> bool \<Rightarrow> error + (vec \<times> real)" where
  "logit_normalize z logdet reverse =
     (if \<not> reverse then
        (case divide_by_256 z logdet of (z1, logdet1) \<Rightarrow> logit_normalize_step z1 logdet1)
      else
        rbind (inverse_normalize z logdet) (\<lambda>(z1, logdet1). Inr (multiply_by_256 z1 logdet1)))"

text \<open>
  One example of the batch through \<open>Model.forward\<close>, after its noise has been added:
  \<open>encode\<close> is the part that maps the input to z space and keeps track of \<open>ldj\<close>.
\<close>

definition encode :: "Model \<Rightarrow> vec \<Rightarrow> error + (vec \<times> real)" where
  "encode m z =
     (let ldj = 0 in
      rbind (logit_normalize z ldj False) (\<lambda>(z1, ldj1). Flow_forward (flow m) z1 ldj1 False))"

definition forward_row :: "Model \<Rightarrow> vec \<Rightarrow> error + real" where
  "forward_row m z =
     rbind (encode m z) (\<lambda>(z2, ldj2).
       let log_pz = log_prior z2; log_px = log_pz + ldj2 in Inr log_px)"

fun dequantize_rows :: "vec list \<Rightarrow> generator \<Rightarrow> vec list \<times> generator" where
  "dequantize_rows [] g = ([], g)"
| "dequantize_rows (x # xs) g =
     (case dequantize x g of (z, g') \<Rightarrow>
        case dequantize_rows xs g' of (zs, g'') \<Rightarrow> (z # zs, g''))"

fun collect :: "(error + 'a) list \<Rightarrow> error + 'a list" where
  "collect [] = Inr []"
| "collect (r # rs) = rbind r (\<lambda>v. rbind (collect rs) (\<lambda>vs. Inr (v # vs)))"

definition Model_forward :: "Model \<Rightarrow> vec list \<Rightarrow> generator \<Rightarrow> error + (real list \<times> generator)" where
  "Model_forward m input g =
     (case dequantize_rows input g of (z, g') \<Rightarrow>
        rbind (collect (map (forward_row m) z)) (\<lambda>log_px. Inr (log_px, g')))"

text \<open>One row of the prior sample through the second half of \<open>Model.sample\<close>.\<close>

definition sample_row :: "Model \<Rightarrow> vec \<Rightarrow> error + vec" where
  "sample_row m z =
     (let ldj = 0 in
      rbind (Flow_forward (flow m) z ldj True) (\<lambda>(x_hat, ldj1).
      rbind (logit_normalize x_hat ldj1 True) (\<lambda>(x_hat', ldj2). Inr x_hat')))"

definition Model_sample :: "Model \<Rightarrow> nat \<Rightarrow> generator \<Rightarrow> error + (vec list \<times> generator)" where
  "Model_sample m n_samples g =
     (case z_shape (flow m) of
        [d] \<Rightarrow>
          (case sample_prior n_samples d g of (z, g') \<Rightarrow>
             rbind (collect (map (sample_row m) z)) (\<lambda>x_hat. Inr (x_hat, g')))
      | _ \<Rightarrow> Inl ShapeError)"

section \<open>Shapes the constructors establish\<close>

text \<open>
  \<open>nn.Linear\<close> builds a weight and a bias of the sizes it was given, \<open>Coupling\<close> a network
  from \<open>c_in\<close> to \<open>2 * c_in\<close> columns; training changes the numbers and keeps the shapes.
  The masks of the flow hold zeros and ones only.
\<close>

definition Linear_wf :: "Linear \<Rightarrow> bool" where
  "Linear_wf l \<longleftrightarrow>
     length (weight l) = out_features l \<and> (\<forall>w \<in> set (weight l). length w = in_features l) \<and>
     length (bias l) = out_features l"

fun Sequential_wf :: "module list \<Rightarrow> nat \<Rightarrow> nat \<Rightarrow> bool" where
  "Sequential_wf [] n_in n_out \<longleftrightarrow> n_in = n_out"
| "Sequential_wf (Lin l # ms) n_in n_out \<longleftrightarrow>
     Linear_wf l \<and> in_features l = n_in \<and> Sequential_wf ms (out_features l) n_out"
| "Sequential_wf (ReLU # ms) n_in n_out \<longleftrightarrow> Sequential_wf ms n_in n_out"

definition Coupling_wf :: "Coupling \<Rightarrow> bool" where
  "Coupling_wf c \<longleftrightarrow>
     0 < c_in c \<and> length (mask c) = c_in c \<and> Sequential_wf (nn c) (c_in c) (2 * c_in c)"

definition binary :: "vec \<Rightarrow> bool" where
  "binary m \<longleftrightarrow> (\<forall>v \<in> set m. v = 0 \<or> v = 1)"

definition Flow_wf :: "Flow \<Rightarrow> nat \<Rightarrow> bool" where
  "Flow_wf f d \<longleftrightarrow> (\<forall>c \<in> set (layers f). Coupling_wf c \<and> c_in c = d)"

definition Flow_binary :: "Flow \<Rightarrow> bool" where
  "Flow_binary f \<longleftrightarrow> (\<forall>c \<in> set (layers f). binary (mask c))"

section \<open>Example values\<close>

text \<open>
  A coupling layer on two columns with a trained (non-zero) last layer, a flow of two such
  layers on complementary masks and a model around it, the draw that sets every initial
  parameter to zero, and a generator whose uniform numbers are all one half.
\<close>

definition example_net :: "module list" where
  "example_net =
     [Lin \<lparr> in_features = 2, out_features = 1, weight = [[1, 1]], bias = [0] \<rparr>, ReLU,
      Lin \<lparr> in_features = 1, out_features = 1, weight = [[1]], bias = [0] \<rparr>, ReLU,
      Lin \<lparr> in_features = 1, out_features = 4, weight = [[1], [1], [0], [1]], bias = [0, 0, 0, 0] \<rparr>]"

definition example_coupling :: Coupling where
  "example_coupling = \<lparr> n_hidden = 1, c_in = 2, mask = [1, 0], nn = example_net \<rparr>"

definition example_flow :: Flow where
  "example_flow =
     \<lparr> layers = [example_coupling, example_coupling \<lparr> mask := [0, 1] \<rparr>], z_shape = [2] \<rparr>"

definition zero_draw :: "((nat \<Rightarrow> nat \<Rightarrow> real) \<times> (nat \<Rightarrow> real)) \<times> ((nat \<Rightarrow> nat \<Rightarrow> real) \<times> (nat \<Rightarrow> real)) \<times>
   ((nat \<Rightarrow> nat \<Rightarrow> real) \<times> (nat \<Rightarrow> real))" where
  "zero_draw = ((\<lambda>i j. 0, \<lambda>i. 0), (\<lambda>i j. 0, \<lambda>i. 0), (\<lambda>i j. 0, \<lambda>i. 0))"

definition example_model :: Model where
  "example_model = \<lparr> flow = example_flow, shape = [2] \<rparr>"

definition example_generator :: generator where
  "example_generator = \<lparr> uniform = (\<lambda>i. 1 / 2), normal = (\<lambda>i. 0), pos = 0 \<rparr>"

section \<open>The scalar map of the forward normalization\<close>

text \<open>
  What the forward \<open>logit_normalize\<close> does to one entry \<open>v\<close> of its input: \<open>shrunk v\<close> after
  the division and the shrink, \<open>logit_of_pixel v\<close> after the logit, and the slope of
  \<open>logit_of_pixel\<close> at \<open>v\<close>. They are stated here to compare the \<open>ldj\<close> of the code with the
  derivative of the map it applies.
\<close>

definition shrunk :: "real \<Rightarrow> real" where
  "shrunk v = v / 256 * (1 - alpha) + alpha * 0.5"

definition logit_of_pixel :: "real \<Rightarrow> real" where
  "logit_of_pixel v = ln (shrunk v) - ln (1 - shrunk v)"

definition logit_of_pixel_slope :: "real \<Rightarrow> real" where
  "logit_of_pixel_slope v = (1 - alpha) / 256 * (1 / shrunk v + 1 / (1 - shrunk v))"

section \<open>Shapes and results of the operations\<close>

lemma rbind_Inr [simp]: "rbind (Inr v) f = f v"
  by (simp add: rbind_def)

lemma rbind_Inl [simp]: "rbind (Inl e) f = Inl e"
  by (simp add: rbind_def)

lemma broadcast_same: "length xs = length ys \<Longrightarrow> broadcast f xs ys = Inr (map2 f xs ys)"
  by (simp add: broadcast_def)

lemma Linear_forward_wf:
  "Linear_wf l \<Longrightarrow> length x = in_features l \<Longrightarrow>
   \<exists>y. Linear_forward l x = Inr y \<and> length y = out_features l"
  by (simp add: Linear_forward_def Linear_wf_def)

lemma Sequential_forward_wf:
  "Sequential_wf ms n_in n_out \<Longrightarrow> length x = n_in \<Longrightarrow>
   \<exists>y. Sequential_forward ms x = Inr y \<and> length y = n_out"
proof (induction ms n_in n_out arbitrary: x rule: Sequential_wf.induct)
  case (1 n_in n_out)
  then show ?case by simp
next
  case (2 l ms n_in n_out)
  from "2.prems" obtain y where y: "Linear_forward l x = Inr y" "length y = out_features l"
    using Linear_forward_wf [of l x] by auto
  from "2.prems" have "Sequential_wf ms (out_features l) n_out" by simp
  from "2.IH" [OF this y(2)] y(1) show ?case by simp
next
  case (3 ms n_in n_out)
  then show ?case by (simp add: relu_def)
qed

lemma split_unpack2:
  assumes "0 < n" "length y = 2 * n"
  shows "rbind (split n y) unpack2 = Inr (take n y, drop n y)"
proof -
  have "(length y + n - 1) div n = 2"
    using assms by (intro div_nat_eqI) simp_all
  then have "split n y = Inr [take n y, drop n y]"
    using assms by (simp add: split_def upt_rec numeral_2_eq_2)
  then show ?thesis by (simp add: unpack2_def)
qed

lemma network_output_wf:
  assumes "Coupling_wf c" "length z = c_in c"
  shows "\<exists>h t. network_output c z = Inr (h, t) \<and> length h = c_in c \<and> length t = c_in c"
proof -
  from assms have len: "length (map2 (*) (mask c) z) = c_in c"
    by (simp add: Coupling_wf_def)
  from assms have "Sequential_wf (nn c) (c_in c) (2 * c_in c)"
    by (simp add: Coupling_wf_def)
  from Sequential_forward_wf [OF this len]
  obtain y where y: "Sequential_forward (nn c) (map2 (*) (mask c) z) = Inr y" "length y = 2 * c_in c"
    by blast
  from assms have pos: "0 < c_in c" by (simp add: Coupling_wf_def)
  from assms have "broadcast (*) (mask c) z = Inr (map2 (*) (mask c) z)"
    by (simp add: broadcast_same Coupling_wf_def)
  then have "network_output c z = Inr (take (c_in c) y, drop (c_in c) y)"
    by (simp add: network_output_def y(1) split_unpack2 [OF pos y(2)])
  with y(2) show ?thesis by simp
qed

lemma network_output_cong:
  "broadcast (*) (mask c) z = broadcast (*) (mask c) z' \<Longrightarrow> network_output c z = network_output c z'"
  by (simp add: network_output_def)

lemma map2_nth:
  "length xs = n \<Longrightarrow> length ys = n \<Longrightarrow> map2 f xs ys = map (\<lambda>d. f (xs ! d) (ys ! d)) [0..<n]"
  by (auto intro: nth_equalityI)

lemma Coupling_forward_False_eq:
  assumes "network_output c z = Inr (h, t)" "length h = n" "length t = n"
    "length (mask c) = n" "length z = n"
  shows "Coupling_forward c z ldj False =
     Inr (map (\<lambda>d. mask c ! d * z ! d + (1 - mask c ! d) * (z ! d * exp (tanh (h ! d)) + t ! d)) [0..<n],
          ldj + (\<Sum>d<n. (1 - mask c ! d) * tanh (h ! d)))"
proof -
  let ?m = "mask c"
  let ?z' = "map2 (+) (map2 (*) ?m z)
               (map2 (*) (one_minus ?m) (map2 (+) (map2 (*) z (torch_exp (torch_tanh h))) t))"
  let ?s = "map2 (*) (one_minus ?m) (torch_tanh h)"
  from assms have "Coupling_forward c z ldj False = Inr (?z', ldj + sum_list ?s)"
    by (simp add: Coupling_forward_def broadcast_same one_minus_def torch_exp_def torch_tanh_def)
  moreover from assms have "?z' =
      map (\<lambda>d. ?m ! d * z ! d + (1 - ?m ! d) * (z ! d * exp (tanh (h ! d)) + t ! d)) [0..<n]"
    by (intro nth_equalityI) (simp_all add: one_minus_def torch_exp_def torch_tanh_def)
  moreover from assms have "?s = map (\<lambda>d. (1 - ?m ! d) * tanh (h ! d)) [0..<n]"
    by (intro nth_equalityI) (simp_all add: one_minus_def torch_tanh_def)
  then have "sum_list ?s = (\<Sum>d<n. (1 - ?m ! d) * tanh (h ! d))"
    by (simp add: interv_sum_list_conv_sum_set_nat atLeast0LessThan)
  ultimately show ?thesis by simp
qed

lemma Coupling_forward_True_eq:
  assumes "network_output c z = Inr (h, t)" "length h = n" "length t = n"
    "length (mask c) = n" "length z = n"
  shows "Coupling_forward c z ldj True =
     Inr (map (\<lambda>d. mask c ! d * z ! d + (1 - mask c ! d) * (z ! d - t ! d) * exp (- tanh (h ! d))) [0..<n],
          ldj)"
proof -
  let ?m = "mask c"
  let ?z' = "map2 (+) (map2 (*) ?m z)
               (map2 (*) (map2 (*) (one_minus ?m) (map2 (-) z t)) (torch_exp (neg (torch_tanh h))))"
  from assms have "Coupling_forward c z ldj True = Inr (?z', ldj)"
    by (simp add: Coupling_forward_def broadcast_same one_minus_def torch_exp_def torch_tanh_def neg_def
        comp_assoc)
  moreover from assms have "?z' =
      map (\<lambda>d. ?m ! d * z ! d + (1 - ?m ! d) * (z ! d - t ! d) * exp (- tanh (h ! d))) [0..<n]"
    by (intro nth_equalityI) (simp_all add: one_minus_def torch_exp_def torch_tanh_def neg_def)
  ultimately show ?thesis by simp
qed

section \<open>Inverting a coupling layer\<close>

lemma binary_nth: "binary m \<Longrightarrow> d < length m \<Longrightarrow> m ! d = 0 \<or> m ! d = 1"
  by (simp add: binary_def)

lemma mask_keep: "m = 0 \<or> m = 1 \<Longrightarrow> m * (m * z + (1 - m) * w) = m * (z::real)"
  by auto

lemma affine_undo:
  "m = 0 \<or> m = 1 \<Longrightarrow>
   m * (m * z + (1 - m) * (z * exp s + t)) +
   (1 - m) * ((m * z + (1 - m) * (z * exp s + t)) - t) * exp (- s) = (z::real)"
  by (auto simp: exp_minus)

lemma affine_redo:
  "m = 0 \<or> m = 1 \<Longrightarrow>
   m * (m * z + (1 - m) * (z - t) * exp (- s)) +
   (1 - m) * ((m * z + (1 - m) * (z - t) * exp (- s)) * exp s + t) = (z::real)"
  by (auto simp: exp_minus field_simps)

lemma masked_eq:
  assumes bin: "binary m" and lm: "length m = n" and lz: "length z = n"
  shows "map2 (*) m (map (\<lambda>d. m ! d * z ! d + (1 - m ! d) * w d) [0..<n]) = map2 (*) m z"
proof (rule nth_equalityI)
  show "length (map2 (*) m (map (\<lambda>d. m ! d * z ! d + (1 - m ! d) * w d) [0..<n])) = length (map2 (*) m z)"
    using lm lz by simp
next
  fix d assume "d < length (map2 (*) m (map (\<lambda>d. m ! d * z ! d + (1 - m ! d) * w d) [0..<n]))"
  then have d: "d < n" using lm by simp
  from binary_nth [OF bin] d lm have "m ! d = 0 \<or> m ! d = 1" by simp
  from mask_keep [OF this] d lm lz
  show "map2 (*) m (map (\<lambda>d. m ! d * z ! d + (1 - m ! d) * w d) [0..<n]) ! d = map2 (*) m z ! d"
    by simp
qed

lemma Coupling_forward_then_inverse:
  assumes wf: "Coupling_wf c" and bin: "binary (mask c)" and len: "length z = c_in c"
  shows "\<exists>z1 l1. Coupling_forward c z ldj False = Inr (z1, l1) \<and> length z1 = c_in c \<and>
           (\<forall>ldj2. Coupling_forward c z1 ldj2 True = Inr (z, ldj2))"
proof -
  let ?n = "c_in c" and ?m = "mask c"
  from wf have lm: "length ?m = ?n" by (simp add: Coupling_wf_def)
  from network_output_wf [OF wf len] obtain h t
    where ht: "network_output c z = Inr (h, t)" "length h = ?n" "length t = ?n" by blast
  define z1 where "z1 = map (\<lambda>d. ?m ! d * z ! d + (1 - ?m ! d) * (z ! d * exp (tanh (h ! d)) + t ! d)) [0..<?n]"
  have l1: "length z1 = ?n" by (simp add: z1_def)
  have fwd: "Coupling_forward c z ldj False = Inr (z1, ldj + (\<Sum>d<?n. (1 - ?m ! d) * tanh (h ! d)))"
    unfolding z1_def by (rule Coupling_forward_False_eq [OF ht lm len])
  have "map2 (*) ?m z1 = map2 (*) ?m z"
    unfolding z1_def by (rule masked_eq [OF bin lm len])
  then have "broadcast (*) ?m z1 = broadcast (*) ?m z"
    by (simp add: broadcast_same lm l1 len)
  from network_output_cong [OF this] ht(1) have ht1: "network_output c z1 = Inr (h, t)"
    by simp
  have undo: "map (\<lambda>d. ?m ! d * z1 ! d + (1 - ?m ! d) * (z1 ! d - t ! d) * exp (- tanh (h ! d))) [0..<?n] = z"
  proof (rule nth_equalityI)
    show "length (map (\<lambda>d. ?m ! d * z1 ! d + (1 - ?m ! d) * (z1 ! d - t ! d) * exp (- tanh (h ! d))) [0..<?n]) = length z"
      using len by simp
  next
    fix d assume "d < length (map (\<lambda>d. ?m ! d * z1 ! d + (1 - ?m ! d) * (z1 ! d - t ! d) * exp (- tanh (h ! d))) [0..<?n])"
    then have d: "d < ?n" by simp
    from binary_nth [OF bin] d lm have "?m ! d = 0 \<or> ?m ! d = 1" by simp
    from affine_undo [OF this] d
    show "map (\<lambda>d. ?m ! d * z1 ! d + (1 - ?m ! d) * (z1 ! d - t ! d) * exp (- tanh (h ! d))) [0..<?n] ! d = z ! d"
      by (simp add: z1_def)
  qed
  have "\<forall>ldj2. Coupling_forward c z1 ldj2 True = Inr (z, ldj2)"
    using Coupling_forward_True_eq [OF ht1 ht(2,3) lm l1] undo by simp
  with fwd l1 show ?thesis by blast
qed

lemma Coupling_inverse_then_forward:
  assumes wf: "Coupling_wf c" and bin: "binary (mask c)" and len: "length z = c_in c"
  shows "\<exists>z1. Coupling_forward c z ldj True = Inr (z1, ldj) \<and> length z1 = c_in c \<and>
           (\<forall>ldj2. \<exists>l2. Coupling_forward c z1 ldj2 False = Inr (z, l2))"
proof -
  let ?n = "c_in c" and ?m = "mask c"
  from wf have lm: "length ?m = ?n" by (simp add: Coupling_wf_def)
  from network_output_wf [OF wf len] obtain h t
    where ht: "network_output c z = Inr (h, t)" "length h = ?n" "length t = ?n" by blast
  define z1 where "z1 = map (\<lambda>d. ?m ! d * z ! d + (1 - ?m ! d) * ((z ! d - t ! d) * exp (- tanh (h ! d)))) [0..<?n]"
  have l1: "length z1 = ?n" by (simp add: z1_def)
  have inv: "Coupling_forward c z ldj True = Inr (z1, ldj)"
    unfolding z1_def using Coupling_forward_True_eq [OF ht lm len] by (simp add: mult.assoc)
  have "map2 (*) ?m z1 = map2 (*) ?m z"
    unfolding z1_def by (rule masked_eq [OF bin lm len])
  then have "broadcast (*) ?m z1 = broadcast (*) ?m z"
    by (simp add: broadcast_same lm l1 len)
  from network_output_cong [OF this] ht(1) have ht1: "network_output c z1 = Inr (h, t)"
    by simp
  have undo: "map (\<lambda>d. ?m ! d * z1 ! d + (1 - ?m ! d) * (z1 ! d * exp (tanh (h ! d)) + t ! d)) [0..<?n] = z"
  proof (rule nth_equalityI)
    show "length (map (\<lambda>d. ?m ! d * z1 ! d + (1 - ?m ! d) * (z1 ! d * exp (tanh (h ! d)) + t ! d)) [0..<?n]) = length z"
      using len by simp
  next
    fix d assume "d < length (map (\<lambda>d. ?m ! d * z1 ! d + (1 - ?m ! d) * (z1 ! d * exp (tanh (h ! d)) + t ! d)) [0..<?n])"
    then have d: "d < ?n" by simp
    from binary_nth [OF bin] d lm have "?m ! d = 0 \<or> ?m ! d = 1" by simp
    from affine_redo [OF this] d
    show "map (\<lambda>d. ?m ! d * z1 ! d + (1 - ?m ! d) * (z1 ! d * exp (tanh (h ! d)) + t ! d)) [0..<?n] ! d = z ! d"
      by (simp add: z1_def mult.assoc)
  qed
  have "\<forall>ldj2. \<exists>l2. Coupling_forward c z1 ldj2 False = Inr (z, l2)"
    using Coupling_forward_False_eq [OF ht1 ht(2,3) lm l1] undo by simp
  with inv l1 show ?thesis by blast
qed

section \<open>A freshly constructed coupling layer\<close>

lemma Linear_init_wf: "Linear_wf (Linear_init n_in n_out draw)"
  by (simp add: Linear_wf_def Linear_init_def)

lemma dot_zero: "dot (map (\<lambda>_. 0) w) x = 0"
proof -
  have "map2 (*) (map (\<lambda>_. 0) w) x = map (\<lambda>_. 0::real) (zip w x)"
    by (auto simp: zip_map1)
  then show ?thesis by (simp add: dot_def)
qed

lemma Linear_forward_zero:
  assumes "Linear_wf l" "length x = in_features l"
  shows "Linear_forward (l \<lparr> weight := map (map (\<lambda>_. 0)) (weight l), bias := map (\<lambda>_. 0) (bias l) \<rparr>) x =
     Inr (replicate (out_features l) 0)"
proof -
  have "map2 (\<lambda>w b. dot w x + b) (map (map (\<lambda>_. 0)) (weight l)) (map (\<lambda>_. 0) (bias l)) =
        replicate (out_features l) 0"
    using assms by (intro nth_equalityI) (simp_all add: Linear_wf_def dot_zero)
  with assms show ?thesis by (simp add: Linear_forward_def)
qed

lemma Coupling_init_nn:
  "nn (Coupling_init channels msk hidden (d0, d2, d4)) =
     [Lin (Linear_init channels hidden d0), ReLU, Lin (Linear_init hidden hidden d2), ReLU,
      zero_data (Lin (Linear_init hidden (channels * 2) d4))]"
  by (simp add: Coupling_init_def)

lemma Coupling_init_fields:
  "c_in (Coupling_init channels msk hidden draws) = channels"
  "mask (Coupling_init channels msk hidden draws) = msk"
  "n_hidden (Coupling_init channels msk hidden draws) = hidden"
  by (simp_all add: Coupling_init_def split: prod.splits)

lemma Coupling_init_wf:
  assumes "0 < channels" "length msk = channels"
  shows "Coupling_wf (Coupling_init channels msk hidden draws)"
proof -
  obtain d0 d2 d4 where d: "draws = (d0, d2, d4)" by (cases draws) auto
  have "Linear_wf (Linear_init hidden (channels * 2) d4 \<lparr> weight := map (map (\<lambda>_. 0)) (weight (Linear_init hidden (channels * 2) d4)),
      bias := map (\<lambda>_. 0) (bias (Linear_init hidden (channels * 2) d4)) \<rparr>)"
    by (simp add: Linear_wf_def Linear_init_def)
  then have "Sequential_wf (nn (Coupling_init channels msk hidden draws)) channels (2 * channels)"
    unfolding d Coupling_init_nn by (simp add: Linear_init_wf) (simp add: Linear_init_def mult.commute)
  with assms show ?thesis by (simp add: Coupling_wf_def Coupling_init_fields)
qed

lemma Coupling_init_output:
  assumes "0 < channels" "length msk = channels" "length z = channels"
  shows "network_output (Coupling_init channels msk hidden draws) z =
     Inr (replicate channels 0, replicate channels 0)"
proof -
  obtain d0 d2 d4 where d: "draws = (d0, d2, d4)" by (cases draws) auto
  let ?c = "Coupling_init channels msk hidden draws"
  let ?mz = "map2 (*) msk z"
  from assms have len: "length ?mz = in_features (Linear_init channels hidden d0)"
    by (simp add: Linear_init_def)
  from Linear_forward_wf [OF Linear_init_wf len]
  obtain y0 where y0: "Linear_forward (Linear_init channels hidden d0) ?mz = Inr y0" "length y0 = hidden"
    by (auto simp: Linear_init_def)
  then have "length (relu y0) = in_features (Linear_init hidden hidden d2)"
    by (simp add: relu_def Linear_init_def)
  from Linear_forward_wf [OF Linear_init_wf this]
  obtain y2 where y2: "Linear_forward (Linear_init hidden hidden d2) (relu y0) = Inr y2" "length y2 = hidden"
    by (auto simp: Linear_init_def)
  then have "length (relu y2) = in_features (Linear_init hidden (channels * 2) d4)"
    by (simp add: relu_def Linear_init_def)
  from Linear_forward_zero [OF Linear_init_wf this]
  have "Sequential_forward (nn ?c) ?mz = Inr (replicate (channels * 2) 0)"
    unfolding d Coupling_init_nn by (simp add: y0 y2) (simp add: Linear_init_def)
  moreover have "rbind (split channels (replicate (channels * 2) 0)) unpack2 =
      Inr (take channels (replicate (channels * 2) 0), drop channels (replicate (channels * 2) (0::real)))"
    using assms(1) by (intro split_unpack2) simp_all
  ultimately show ?thesis
    using assms by (simp add: network_output_def Coupling_init_fields broadcast_same)
qed

lemma Coupling_forward_zero_output:
  assumes "network_output c z = Inr (replicate n 0, replicate n 0)"
    "length (mask c) = n" "length z = n"
  shows "Coupling_forward c z ldj False = Inr (z, ldj)" "Coupling_forward c z ldj True = Inr (z, ldj)"
proof -
  have eq1: "map (\<lambda>d. mask c ! d * z ! d + (1 - mask c ! d) * (z ! d * exp (tanh (replicate n 0 ! d)) + replicate n 0 ! d)) [0..<n] = z"
    using assms(3) by (intro nth_equalityI) (simp_all add: algebra_simps)
  have eq2: "map (\<lambda>d. mask c ! d * z ! d + (1 - mask c ! d) * (z ! d - replicate n 0 ! d) * exp (- tanh (replicate n 0 ! d))) [0..<n] = z"
    using assms(3) by (intro nth_equalityI) (simp_all add: algebra_simps)
  have s: "(\<Sum>d<n. (1 - mask c ! d) * tanh (replicate n (0::real) ! d)) = 0"
    by simp
  show "Coupling_forward c z ldj False = Inr (z, ldj)"
    using Coupling_forward_False_eq [OF assms(1) _ _ assms(2,3), of ldj] eq1 s by simp
  show "Coupling_forward c z ldj True = Inr (z, ldj)"
    using Coupling_forward_True_eq [OF assms(1) _ _ assms(2,3), of ldj] eq2 by simp
qed

lemma example_coupling_wf: "Coupling_wf example_coupling"
  by (simp add: Coupling_wf_def example_coupling_def example_net_def Linear_wf_def)

lemma example_coupling_binary: "binary (mask example_coupling)"
  by (simp add: binary_def example_coupling_def)


section \<open>Claims about the coupling layer\<close>

text \<open>
  C1. For a coupling layer of well-formed shapes with a binary mask, every \<open>z\<close> of its
  width and every initial \<open>ldj\<close>: the forward transform followed by the inverse transform
  of its result (whatever \<open>ldj\<close> the second call is given) returns \<open>z\<close> exactly, and so does
  the inverse followed by the forward transform. Arithmetic is over the reals.
\<close>

theorem Coupling_forward_inverts:
  assumes "Coupling_wf c" "binary (mask c)" "length z = c_in c"
  shows "(\<exists>z1 l1. Coupling_forward c z ldj False = Inr (z1, l1) \<and>
            (\<forall>ldj2. \<exists>l2. Coupling_forward c z1 ldj2 True = Inr (z, l2))) \<and>
         (\<exists>z1 l1. Coupling_forward c z ldj True = Inr (z1, l1) \<and>
            (\<forall>ldj2. \<exists>l2. Coupling_forward c z1 ldj2 False = Inr (z, l2)))"
proof
  from Coupling_forward_then_inverse [OF assms, of ldj]
  show "\<exists>z1 l1. Coupling_forward c z ldj False = Inr (z1, l1) \<and>
            (\<forall>ldj2. \<exists>l2. Coupling_forward c z1 ldj2 True = Inr (z, l2))"
    by blast
  from Coupling_inverse_then_forward [OF assms, of ldj]
  show "\<exists>z1 l1. Coupling_forward c z ldj True = Inr (z1, l1) \<and>
            (\<forall>ldj2. \<exists>l2. Coupling_forward c z1 ldj2 False = Inr (z, l2))"
    by blast
qed

theorem Coupling_forward_inverts_witness:
  "Coupling_wf example_coupling \<and> binary (mask example_coupling) \<and>
   length [3, 5 :: real] = c_in example_coupling \<and>
   ((\<exists>z1 l1. Coupling_forward example_coupling [3, 5] 7 False = Inr (z1, l1) \<and>
            (\<forall>ldj2. \<exists>l2. Coupling_forward example_coupling z1 ldj2 True = Inr ([3, 5], l2))) \<and>
         (\<exists>z1 l1. Coupling_forward example_coupling [3, 5] 7 True = Inr (z1, l1) \<and>
            (\<forall>ldj2. \<exists>l2. Coupling_forward example_coupling z1 ldj2 False = Inr ([3, 5], l2))))"
proof -
  have len: "length [3, 5 :: real] = c_in example_coupling"
    by (simp add: example_coupling_def)
  show ?thesis
    by (rule conjI [OF example_coupling_wf], rule conjI [OF example_coupling_binary],
        rule conjI [OF len],
        rule Coupling_forward_inverts [OF example_coupling_wf example_coupling_binary len])
qed



text \<open>
  C5. A freshly constructed coupling layer, whose last linear layer has been set to zero,
  is the identity in the forward direction, for any input and any mask of its width:
  from \<open>ldj = 0\<close> it returns \<open>z\<close> itself and \<open>ldj' = 0\<close>, whatever the other initial
  parameters and the hidden width are.
\<close>

theorem Coupling_init_identity:
  assumes "0 < channels" "length msk = channels" "length z = channels"
  shows "Coupling_forward (Coupling_init channels msk hidden draws) z 0 False = Inr (z, 0)"
  using Coupling_forward_zero_output(1) [OF Coupling_init_output [OF assms]] assms
  by (simp add: Coupling_init_fields)

theorem Coupling_init_identity_witness:
  "(0::nat) < 2 \<and> length [1/2, 7 :: real] = 2 \<and> length [3, 5 :: real] = 2 \<and>
   Coupling_forward (Coupling_init 2 [1/2, 7] 3 zero_draw) [3, 5] 0 False = Inr ([3, 5], 0)"
proof -
  have a: "(0::nat) < 2" by simp
  have b: "length [1/2, 7 :: real] = 2" by simp
  have c: "length [3, 5 :: real] = 2" by simp
  show ?thesis
    by (rule conjI [OF a], rule conjI [OF b], rule conjI [OF c],
        rule Coupling_init_identity [OF a b c])
qed

section \<open>Composing coupling layers\<close>

lemma Coupling_forward_True_ldj:
  assumes "Coupling_forward c z ldj True = Inr (z', ldj')"
  shows "ldj' = ldj"
proof -
  from assms obtain h t where ht: "network_output c z = Inr (h, t)"
    by (cases "network_output c z") (auto simp: Coupling_forward_def)
  from assms show ?thesis
    by (simp add: Coupling_forward_def ht rbind_def split: sum.splits)
qed

lemma apply_layers_True_ldj:
  "apply_layers ls True z ldj = Inr (z', ldj') \<Longrightarrow> ldj' = ldj"
proof (induction ls arbitrary: z)
  case Nil
  then show ?case by simp
next
  case (Cons c cs)
  from Cons.prems obtain z1 l1 where c: "Coupling_forward c z ldj True = Inr (z1, l1)"
    by (cases "Coupling_forward c z ldj True") auto
  with Cons.prems have "apply_layers cs True z1 l1 = Inr (z', ldj')" by simp
  moreover from c have "l1 = ldj" by (rule Coupling_forward_True_ldj)
  ultimately show ?case using Cons.IH by simp
qed

lemma Coupling_forward_True_wf:
  assumes "Coupling_wf c" "length z = c_in c"
  shows "\<exists>z'. Coupling_forward c z ldj True = Inr (z', ldj) \<and> length z' = c_in c"
proof -
  from assms have lm: "length (mask c) = c_in c" by (simp add: Coupling_wf_def)
  from network_output_wf [OF assms] obtain h t
    where ht: "network_output c z = Inr (h, t)" "length h = c_in c" "length t = c_in c" by blast
  from Coupling_forward_True_eq [OF ht lm assms(2), of ldj] show ?thesis by simp
qed

lemma apply_layers_True_wf:
  "\<forall>c \<in> set ls. Coupling_wf c \<and> c_in c = d \<Longrightarrow> length z = d \<Longrightarrow>
   \<exists>z'. apply_layers ls True z ldj = Inr (z', ldj) \<and> length z' = d"
proof (induction ls arbitrary: z)
  case Nil
  then show ?case by simp
next
  case (Cons c cs)
  then have "Coupling_wf c" "length z = c_in c" by simp_all
  from Coupling_forward_True_wf [OF this, of ldj] obtain z1
    where z1: "Coupling_forward c z ldj True = Inr (z1, ldj)" "length z1 = c_in c" by blast
  with Cons.prems have "length z1 = d" by simp
  moreover from Cons.prems have "\<forall>c \<in> set cs. Coupling_wf c \<and> c_in c = d" by simp
  ultimately obtain z' where "apply_layers cs True z1 ldj = Inr (z', ldj)" "length z' = d"
    using Cons.IH by blast
  with z1 show ?case by simp
qed

lemma apply_layers_append:
  "apply_layers (xs @ ys) r z l = rbind (apply_layers xs r z l) (\<lambda>(z', l'). apply_layers ys r z' l')"
proof (induction xs arbitrary: z l)
  case Nil
  then show ?case by simp
next
  case (Cons c cs)
  show ?case
  proof (cases "Coupling_forward c z l r")
    case (Inl e)
    then show ?thesis by simp
  next
    case (Inr p)
    then show ?thesis by (cases p) (simp add: Cons.IH)
  qed
qed

lemma apply_layers_inverse:
  "\<forall>c \<in> set ls. Coupling_wf c \<and> c_in c = d \<and> binary (mask c) \<Longrightarrow> length z = d \<Longrightarrow>
   \<exists>z1 l1. apply_layers ls False z l = Inr (z1, l1) \<and> length z1 = d \<and>
     (\<forall>l2. apply_layers (rev ls) True z1 l2 = Inr (z, l2))"
proof (induction ls arbitrary: z l)
  case Nil
  then show ?case by simp
next
  case (Cons c cs)
  then have c: "Coupling_wf c" "binary (mask c)" "length z = c_in c" by simp_all
  from Coupling_forward_then_inverse [OF c, of l] obtain zc lc
    where zc: "Coupling_forward c z l False = Inr (zc, lc)" "length zc = c_in c"
      "\<forall>ldj2. Coupling_forward c zc ldj2 True = Inr (z, ldj2)" by blast
  from zc(2) Cons.prems have "length zc = d" by simp
  moreover from Cons.prems have "\<forall>c \<in> set cs. Coupling_wf c \<and> c_in c = d \<and> binary (mask c)" by simp
  ultimately obtain z1 l1 where z1: "apply_layers cs False zc lc = Inr (z1, l1)" "length z1 = d"
      "\<forall>l2. apply_layers (rev cs) True z1 l2 = Inr (zc, l2)"
    using Cons.IH by blast
  have "\<forall>l2. apply_layers (rev (c # cs)) True z1 l2 = Inr (z, l2)"
    by (simp add: apply_layers_append z1(3) zc(3))
  with zc(1) z1(1,2) show ?case by simp
qed

lemma length_get_mask: "length get_mask = 784"
  by (simp add: get_mask_def length_concat comp_def sum_list_triv)

lemma binary_get_mask: "binary get_mask"
  by (auto simp: binary_def get_mask_def)

lemma binary_one_minus: "binary m \<Longrightarrow> binary (one_minus m)"
  by (auto simp: binary_def one_minus_def)

lemma Flow_init_wf:
  assumes "Flow_init [784] n_flows draws = Inr f"
  shows "Flow_wf f 784" "Flow_binary f"
proof -
  from assms have l: "layers f = concat (map (\<lambda>i.
                   [Coupling_init 784 get_mask 1024 (draws (2 * i)),
                    Coupling_init 784 (one_minus get_mask) 1024 (draws (2 * i + 1))])
                   [0..<n_flows])"
    by (auto simp: Flow_init_def)
  have "Coupling_wf (Coupling_init 784 get_mask 1024 d)" for d
    by (rule Coupling_init_wf) (simp_all add: length_get_mask)
  moreover have "Coupling_wf (Coupling_init 784 (one_minus get_mask) 1024 d)" for d
    by (rule Coupling_init_wf) (simp_all add: length_get_mask one_minus_def)
  ultimately show "Flow_wf f 784"
    by (auto simp: Flow_wf_def l Coupling_init_fields)
  show "Flow_binary f"
    by (auto simp: Flow_binary_def l Coupling_init_fields binary_get_mask binary_one_minus)
qed

lemma example_flow_wf: "Flow_wf example_flow 2"
  using example_coupling_wf
  by (simp add: Flow_wf_def example_flow_def Coupling_wf_def example_coupling_def)

lemma example_flow_binary: "Flow_binary example_flow"
  by (simp add: Flow_binary_def example_flow_def binary_def example_coupling_def)

section \<open>Claims about the flow\<close>

text \<open>
  C2. For a flow whose layers have well-formed shapes of the width of \<open>z\<close> and binary
  masks: running it forward from \<open>ldj = 0\<close> and then in reverse from \<open>ldj = 0\<close> on the
  result returns \<open>z\<close>. The reverse pass starts with the layer constructed last and calls
  every layer with \<open>reverse = True\<close>.
\<close>

theorem Flow_forward_inverts:
  assumes "Flow_wf f (length z)" "Flow_binary f"
  shows "(\<exists>z1 l1. Flow_forward f z 0 False = Inr (z1, l1) \<and> Flow_forward f z1 0 True = Inr (z, 0)) \<and>
         (\<forall>c cs z' l. Flow_forward (f \<lparr> layers := cs @ [c] \<rparr>) z' l True =
            rbind (Coupling_forward c z' l True)
              (\<lambda>(z'', l'). Flow_forward (f \<lparr> layers := cs \<rparr>) z'' l' True))"
proof
  from assms have "\<forall>c \<in> set (layers f). Coupling_wf c \<and> c_in c = length z \<and> binary (mask c)"
    by (simp add: Flow_wf_def Flow_binary_def)
  from apply_layers_inverse [OF this refl, of 0]
  show "\<exists>z1 l1. Flow_forward f z 0 False = Inr (z1, l1) \<and> Flow_forward f z1 0 True = Inr (z, 0)"
    by (auto simp: Flow_forward_def)
  show "\<forall>c cs z' l. Flow_forward (f \<lparr> layers := cs @ [c] \<rparr>) z' l True =
            rbind (Coupling_forward c z' l True)
              (\<lambda>(z'', l'). Flow_forward (f \<lparr> layers := cs \<rparr>) z'' l' True)"
    by (simp add: Flow_forward_def)
qed

theorem Flow_forward_inverts_witness:
  "\<exists>f. Flow_init [784] 4 (\<lambda>k. zero_draw) = Inr f \<and>
     Flow_wf f (length (replicate 784 (1::real))) \<and> Flow_binary f \<and>
     (\<exists>z1 l1. Flow_forward f (replicate 784 1) 0 False = Inr (z1, l1) \<and>
        Flow_forward f z1 0 True = Inr (replicate 784 1, 0))"
proof -
  obtain f where f: "Flow_init [784] 4 (\<lambda>k. zero_draw) = Inr f"
    by (simp add: Flow_init_def)
  from Flow_init_wf [OF f] have wf: "Flow_wf f (length (replicate 784 (1::real)))" and bin: "Flow_binary f"
    by simp_all
  from Flow_forward_inverts [OF wf bin] f wf bin show ?thesis by blast
qed

text \<open>
  C6. With \<open>reverse = True\<close>, \<open>Coupling.forward\<close> returns the \<open>ldj\<close> it was given, and so
  does \<open>Flow.forward\<close>: whenever they return, the second component is the argument, and
  on well-formed shapes they do return.
\<close>

theorem reverse_keeps_ldj:
  "(\<forall>z' ldj'. Coupling_forward c z ldj True = Inr (z', ldj') \<longrightarrow> ldj' = ldj) \<and>
   (\<forall>z' ldj'. Flow_forward f z ldj True = Inr (z', ldj') \<longrightarrow> ldj' = ldj) \<and>
   (Coupling_wf c \<and> length z = c_in c \<longrightarrow> (\<exists>z'. Coupling_forward c z ldj True = Inr (z', ldj))) \<and>
   (Flow_wf f (length z) \<longrightarrow> (\<exists>z'. Flow_forward f z ldj True = Inr (z', ldj)))"
proof (intro conjI allI impI)
  fix z' ldj' assume "Coupling_forward c z ldj True = Inr (z', ldj')"
  then show "ldj' = ldj" by (rule Coupling_forward_True_ldj)
next
  fix z' ldj' assume "Flow_forward f z ldj True = Inr (z', ldj')"
  then show "ldj' = ldj" by (simp add: Flow_forward_def apply_layers_True_ldj)
next
  assume "Coupling_wf c \<and> length z = c_in c"
  then show "\<exists>z'. Coupling_forward c z ldj True = Inr (z', ldj)"
    using Coupling_forward_True_wf [of c z ldj] by blast
next
  assume "Flow_wf f (length z)"
  then have "\<forall>c \<in> set (rev (layers f)). Coupling_wf c \<and> c_in c = length z"
    by (simp add: Flow_wf_def)
  from apply_layers_True_wf [OF this refl, of ldj]
  show "\<exists>z'. Flow_forward f z ldj True = Inr (z', ldj)"
    by (auto simp: Flow_forward_def)
qed

theorem reverse_keeps_ldj_witness:
  "Coupling_wf example_coupling \<and> length [3, 5 :: real] = c_in example_coupling \<and>
   Flow_wf example_flow (length [3, 5 :: real]) \<and>
   (\<exists>z'. Coupling_forward example_coupling [3, 5] 7 True = Inr (z', 7)) \<and>
   (\<exists>z'. Flow_forward example_flow [3, 5] 7 True = Inr (z', 7))"
proof -
  have len: "length [3, 5 :: real] = c_in example_coupling"
    by (simp add: example_coupling_def)
  have fwf: "Flow_wf example_flow (length [3, 5 :: real])"
    using example_flow_wf by (simp add: numeral_2_eq_2)
  note t = reverse_keeps_ldj [of example_coupling "[3, 5]" 7 example_flow]
  from t example_coupling_wf len have "\<exists>z'. Coupling_forward example_coupling [3, 5] 7 True = Inr (z', 7)"
    by blast
  moreover from t fwf have "\<exists>z'. Flow_forward example_flow [3, 5] 7 True = Inr (z', 7)"
    by blast
  ultimately show ?thesis using example_coupling_wf len fwf by blast
qed

section \<open>Dequantization and logit-normalization\<close>

lemma torch_log_pos: "\<forall>x \<in> set xs. 0 < x \<Longrightarrow> torch_log xs = Inr (map ln xs)"
  by (simp add: torch_log_def)

lemma sigmoid_bounds: "0 < sigmoid x" "sigmoid x < 1"
proof -
  have "0 < exp (- x)" by simp
  then show "0 < sigmoid x" "sigmoid x < 1"
    by (simp_all add: sigmoid_def add_pos_pos)
qed

lemma map2_same: "map2 f (map g xs) (map h xs) = map (\<lambda>x. f (g x) (h x)) xs"
  by (induction xs) simp_all

lemma inverse_normalize_eq:
  "inverse_normalize z logdet =
     Inr (map (\<lambda>v. (sigmoid v - alpha * 0.5) / (1 - alpha)) z,
          logdet + sum_list (map (\<lambda>v. ln (sigmoid v) + ln (1 - sigmoid v)) z))"
proof -
  have "torch_log (torch_sigmoid z) = Inr (map (\<lambda>v. ln (sigmoid v)) z)"
    using torch_log_pos [of "torch_sigmoid z"] by (simp add: torch_sigmoid_def sigmoid_bounds comp_def)
  moreover have "torch_log (one_minus (torch_sigmoid z)) = Inr (map (\<lambda>v. ln (1 - sigmoid v)) z)"
    using torch_log_pos [of "one_minus (torch_sigmoid z)"]
    by (simp add: torch_sigmoid_def one_minus_def sigmoid_bounds comp_def)
  ultimately show ?thesis
    by (simp add: inverse_normalize_def Let_def map2_same) (simp add: torch_sigmoid_def comp_def)
qed

lemma logit_normalize_True_eq:
  "logit_normalize z logdet True =
     Inr (map (\<lambda>v. (sigmoid v - alpha * 0.5) / (1 - alpha) * 256) z,
          logdet + sum_list (map (\<lambda>v. ln (sigmoid v) + ln (1 - sigmoid v)) z) + ln 256 * real (length z))"
  by (simp add: logit_normalize_def inverse_normalize_eq multiply_by_256_def comp_def)

lemma shrink_bounds:
  assumes "0 \<le> v" "v < 256"
  shows "0 < v / 256 * (1 - alpha) + alpha * 0.5" "v / 256 * (1 - alpha) + alpha * 0.5 < 1"
proof -
  have a: "alpha = 1 / 100000" by (simp add: alpha_def)
  from assms(1) have "0 \<le> v / 256 * (1 - alpha)" by (simp add: a)
  then show "0 < v / 256 * (1 - alpha) + alpha * 0.5" by (simp add: a)
  from assms(2) have "v / 256 < 1" by simp
  then have "v / 256 * (1 - alpha) < 1 * (1 - alpha)"
    by (intro mult_strict_right_mono) (simp_all add: a)
  then show "v / 256 * (1 - alpha) + alpha * 0.5 < 1" by (simp add: a)
qed

lemma logit_normalize_False_eq:
  assumes "\<forall>v \<in> set z. 0 \<le> v \<and> v < 256"
  shows "logit_normalize z logdet False =
     Inr (map (\<lambda>v. ln (v / 256 * (1 - alpha) + alpha * 0.5) - ln (1 - (v / 256 * (1 - alpha) + alpha * 0.5))) z,
          logdet - ln 256 * real (length z) +
          sum_list (map (\<lambda>v. - ln (v / 256 * (1 - alpha) + alpha * 0.5) - ln (1 - (v / 256 * (1 - alpha) + alpha * 0.5))) z))"
proof -
  let ?s = "\<lambda>v::real. v / 256 * (1 - alpha) + alpha * 0.5"
  have z1: "alpha_shrink (map (\<lambda>v. v / 256) z) = map ?s z"
    by (simp add: alpha_shrink_def)
  have "torch_log (map ?s z) = Inr (map (\<lambda>v. ln (?s v)) z)"
    using torch_log_pos [of "map ?s z"] assms shrink_bounds(1) by (simp add: comp_def)
  moreover have "torch_log (one_minus (map ?s z)) = Inr (map (\<lambda>v. ln (1 - ?s v)) z)"
    using torch_log_pos [of "one_minus (map ?s z)"] assms shrink_bounds(2)
    by (simp add: one_minus_def comp_def)
  ultimately show ?thesis
    by (simp add: logit_normalize_def divide_by_256_def Let_def logit_normalize_step_def z1
        map2_same neg_def comp_def)
qed

lemma dequantize_bounds:
  assumes "\<forall>v \<in> set x. 0 \<le> v \<and> v \<le> 255" "\<forall>i. 0 \<le> uniform g i \<and> uniform g i < 1"
  shows "\<forall>v \<in> set (fst (dequantize x g)). 0 \<le> v \<and> v < 256"
proof
  fix v assume "v \<in> set (fst (dequantize x g))"
  then have "v \<in> set (map2 (+) x (map (\<lambda>i. uniform g (pos g + i)) [0..<length x]))"
    by (simp add: dequantize_def rand_like_def)
  then obtain a b where ab: "v = a + b" "(a, b) \<in> set (zip x (map (\<lambda>i. uniform g (pos g + i)) [0..<length x]))"
    by auto
  from ab(2) have "a \<in> set x" by (rule set_zip_leftD)
  moreover from ab(2) have "b \<in> set (map (\<lambda>i. uniform g (pos g + i)) [0..<length x])"
    by (rule set_zip_rightD)
  ultimately obtain i where v: "v = a + uniform g (pos g + i)" "a \<in> set x"
    using ab(1) by auto
  from assms(1) v(2) have "0 \<le> a" "a \<le> 255" by simp_all
  moreover from assms(2) have "0 \<le> uniform g (pos g + i)" "uniform g (pos g + i) < 1" by simp_all
  ultimately show "0 \<le> v \<and> v < 256" using v(1) by simp
qed

lemma dequantize_uniform: "uniform (snd (dequantize x g)) = uniform g"
  by (simp add: dequantize_def rand_like_def)

lemma dequantize_rows_bounds:
  assumes "\<forall>x \<in> set input. \<forall>v \<in> set x. 0 \<le> v \<and> v \<le> 255"
    "\<forall>i. 0 \<le> uniform g i \<and> uniform g i < 1"
  shows "\<forall>z \<in> set (fst (dequantize_rows input g)). \<forall>v \<in> set z. 0 \<le> v \<and> v < 256"
  using assms
proof (induction input arbitrary: g)
  case Nil
  then show ?case by simp
next
  case (Cons x xs)
  from Cons.prems have x: "\<forall>v \<in> set x. 0 \<le> v \<and> v \<le> 255" by simp
  from Cons.prems have xs: "\<forall>x \<in> set xs. \<forall>v \<in> set x. 0 \<le> v \<and> v \<le> 255" by simp
  from Cons.prems(2) have g': "\<forall>i. 0 \<le> uniform (snd (dequantize x g)) i \<and> uniform (snd (dequantize x g)) i < 1"
    by (simp add: dequantize_uniform)
  from Cons.IH [OF xs g'] dequantize_bounds [OF x Cons.prems(2)]
  show ?case by (auto split: prod.splits)
qed

text \<open>No operation but \<open>torch.log\<close> produces the error \<open>NonFinite\<close>.\<close>

lemma rbind_eq_Inl: "rbind r f = Inl e \<longleftrightarrow> r = Inl e \<or> (\<exists>v. r = Inr v \<and> f v = Inl e)"
  by (cases r) simp_all

lemma broadcast_finite: "broadcast f xs ys \<noteq> Inl NonFinite"
  by (simp add: broadcast_def)

lemma Sequential_forward_finite: "Sequential_forward ms x \<noteq> Inl NonFinite"
proof (induction ms arbitrary: x)
  case Nil
  then show ?case by simp
next
  case (Cons m ms)
  have "module_forward m x \<noteq> Inl NonFinite"
    by (cases m) (simp_all add: Linear_forward_def)
  with Cons show ?case by (simp add: rbind_eq_Inl)
qed

lemma network_output_finite: "network_output c z \<noteq> Inl NonFinite"
  by (auto simp: network_output_def rbind_eq_Inl broadcast_finite Sequential_forward_finite
      split_def unpack2_def Let_def split: list.splits if_splits)

lemma Coupling_forward_finite: "Coupling_forward c z ldj reverse \<noteq> Inl NonFinite"
  unfolding Coupling_forward_def
  by (auto simp: rbind_eq_Inl broadcast_finite network_output_finite Let_def)

lemma apply_layers_finite: "apply_layers ls reverse z ldj \<noteq> Inl NonFinite"
  by (induction ls arbitrary: z ldj) (auto simp: rbind_eq_Inl Coupling_forward_finite)

lemma collect_finite: "\<forall>r \<in> set rs. r \<noteq> Inl NonFinite \<Longrightarrow> collect rs \<noteq> Inl NonFinite"
  by (induction rs) (auto simp: rbind_eq_Inl)

lemma forward_row_finite:
  assumes "\<forall>v \<in> set z. 0 \<le> v \<and> v < 256"
  shows "forward_row m z \<noteq> Inl NonFinite"
  using logit_normalize_False_eq [OF assms, of 0]
  by (auto simp: forward_row_def encode_def rbind_eq_Inl Flow_forward_def apply_layers_finite Let_def)

lemma Model_forward_finite:
  assumes "\<forall>x \<in> set input. \<forall>v \<in> set x. 0 \<le> v \<and> v \<le> 255"
    "\<forall>i. 0 \<le> uniform g i \<and> uniform g i < 1"
  shows "Model_forward m input g \<noteq> Inl NonFinite"
proof -
  from dequantize_rows_bounds [OF assms]
  have "\<forall>r \<in> set (map (forward_row m) (fst (dequantize_rows input g))). r \<noteq> Inl NonFinite"
    by (auto simp: forward_row_finite)
  from collect_finite [OF this] show ?thesis
    by (cases "dequantize_rows input g") (auto simp: Model_forward_def rbind_eq_Inl)
qed

section \<open>Claims about the normalization\<close>

text \<open>
  C7. For the same data extent \<open>D\<close>, the forward \<open>logit_normalize\<close> is its logit step run
  on the input divided by 256 with \<open>ldj\<close> lowered by \<open>ln 256 * D\<close>, and the reverse
  \<open>logit_normalize\<close> is its inverse step followed by the multiplication by 256 with \<open>ldj\<close>
  raised by \<open>ln 256 * D\<close>: the forward rescale step contributes the negation of what the
  reverse rescale step contributes.
\<close>

theorem rescale_ldj_symmetry:
  assumes "length z = D" "length z' = D"
  shows "logit_normalize z logdet False =
           logit_normalize_step (map (\<lambda>v. v / 256) z) (logdet - ln 256 * real D) \<and>
         (\<exists>z1 logdet1. inverse_normalize z' logdet' = Inr (z1, logdet1) \<and>
            logit_normalize z' logdet' True =
              Inr (map (\<lambda>v. v * 256) z1, logdet1 + ln 256 * real D)) \<and>
         snd (divide_by_256 z logdet) - logdet = - (ln 256 * real D) \<and>
         snd (multiply_by_256 z' logdet') - logdet' = ln 256 * real D \<and>
         snd (divide_by_256 z logdet) - logdet = - (snd (multiply_by_256 z' logdet') - logdet')"
proof (intro conjI)
  show "logit_normalize z logdet False =
           logit_normalize_step (map (\<lambda>v. v / 256) z) (logdet - ln 256 * real D)"
    using assms(1) by (simp add: logit_normalize_def divide_by_256_def Let_def)
  show "\<exists>z1 logdet1. inverse_normalize z' logdet' = Inr (z1, logdet1) \<and>
            logit_normalize z' logdet' True =
              Inr (map (\<lambda>v. v * 256) z1, logdet1 + ln 256 * real D)"
    using assms(2) by (simp add: logit_normalize_def inverse_normalize_eq multiply_by_256_def)
qed (use assms in \<open>simp_all add: divide_by_256_def multiply_by_256_def Let_def\<close>)

theorem rescale_ldj_symmetry_witness:
  "length [0, 255 :: real] = 2 \<and> length [1/2, 1/3 :: real] = 2 \<and>
   logit_normalize [0, 255] 7 False =
     logit_normalize_step (map (\<lambda>v. v / 256) [0, 255]) (7 - ln 256 * real (2::nat)) \<and>
   (\<exists>z1 logdet1. inverse_normalize [1/2, 1/3] 3 = Inr (z1, logdet1) \<and>
      logit_normalize [1/2, 1/3] 3 True =
        Inr (map (\<lambda>v. v * 256) z1, logdet1 + ln 256 * real (2::nat))) \<and>
   snd (divide_by_256 [0, 255] 7) - 7 = - (snd (multiply_by_256 [1/2, 1/3] 3) - 3)"
proof -
  have a: "length [0, 255 :: real] = 2" and b: "length [1/2, 1/3 :: real] = 2" by simp_all
  from rescale_ldj_symmetry [OF a b, of 7 3] a b show ?thesis by blast
qed

text \<open>
  C8. For a batch with pixel values in \<open>[0, 255]\<close> and dequantization noise in \<open>[0, 1)\<close>,
  every value after the division by 256 and the shrink by \<open>alpha\<close> lies strictly between
  0 and 1, and the forward normalization returns a result: no logarithm is taken of a
  number that is not positive, and \<open>Model.forward\<close> never ends in that error.
\<close>

theorem normalized_inside_unit_interval:
  assumes "\<forall>x \<in> set input. \<forall>v \<in> set x. 0 \<le> v \<and> v \<le> 255"
    "\<forall>i. 0 \<le> uniform g i \<and> uniform g i < 1"
  shows "(\<forall>z \<in> set (fst (dequantize_rows input g)).
           (\<forall>v \<in> set (alpha_shrink (fst (divide_by_256 z ldj))). 0 < v \<and> v < 1) \<and>
           (\<exists>r. logit_normalize z ldj False = Inr r)) \<and>
         Model_forward m input g \<noteq> Inl NonFinite"
proof
  show "\<forall>z \<in> set (fst (dequantize_rows input g)).
           (\<forall>v \<in> set (alpha_shrink (fst (divide_by_256 z ldj))). 0 < v \<and> v < 1) \<and>
           (\<exists>r. logit_normalize z ldj False = Inr r)"
  proof
    fix z assume "z \<in> set (fst (dequantize_rows input g))"
    with dequantize_rows_bounds [OF assms] have z: "\<forall>v \<in> set z. 0 \<le> v \<and> v < 256" by blast
    then have "\<forall>v \<in> set (alpha_shrink (fst (divide_by_256 z ldj))). 0 < v \<and> v < 1"
      using shrink_bounds by (auto simp: alpha_shrink_def divide_by_256_def Let_def)
    moreover from logit_normalize_False_eq [OF z] have "\<exists>r. logit_normalize z ldj False = Inr r"
      by blast
    ultimately show "(\<forall>v \<in> set (alpha_shrink (fst (divide_by_256 z ldj))). 0 < v \<and> v < 1) \<and>
           (\<exists>r. logit_normalize z ldj False = Inr r)" ..
  qed
  show "Model_forward m input g \<noteq> Inl NonFinite"
    by (rule Model_forward_finite [OF assms])
qed

theorem normalized_inside_unit_interval_witness:
  "list_all (list_all (\<lambda>v. 0 \<le> v \<and> v \<le> 255)) [[0, 255 :: real]] \<and>
   (\<forall>i. 0 \<le> uniform example_generator i \<and> uniform example_generator i < 1) \<and>
   list_all (\<lambda>z. list_all (\<lambda>v. 0 < v \<and> v < 1) (alpha_shrink (fst (divide_by_256 z 0))) \<and>
                  (\<exists>r. logit_normalize z 0 False = Inr r))
     (fst (dequantize_rows [[0, 255]] example_generator)) \<and>
   Model_forward example_model [[0, 255]] example_generator \<noteq> Inl NonFinite"
proof -
  have a: "\<forall>x \<in> set [[0, 255 :: real]]. \<forall>v \<in> set x. 0 \<le> v \<and> v \<le> 255" by simp
  have b: "\<forall>i. 0 \<le> uniform example_generator i \<and> uniform example_generator i < 1"
    by (simp add: example_generator_def)
  from normalized_inside_unit_interval [OF a b, of 0 example_model] a b show ?thesis
    unfolding list_all_iff by blast
qed

lemma exp_20_lower: "(1048576::real) \<le> exp 20"
proof -
  have "(2::real) \<le> exp 1" using exp_ge_add_one_self [of "1::real"] by simp
  then have "(2::real) ^ 20 \<le> exp 1 ^ 20" by (intro power_mono) simp_all
  moreover have "exp (1::real) ^ 20 = exp 20"
    using exp_of_nat_mult [of 20 "1::real"] by simp
  ultimately show ?thesis by simp
qed

lemma sigmoid_minus_20: "sigmoid (- 20) < alpha * 0.5"
proof -
  have "1 / (1 + exp (20::real)) \<le> 1 / (1 + 1048576)"
    using exp_20_lower by (intro divide_left_mono) (simp_all add: add_pos_pos)
  then show ?thesis by (simp add: sigmoid_def alpha_def)
qed

lemma sigmoid_20: "1 - alpha * 0.5 < sigmoid 20"
proof -
  have "exp (- 20 :: real) \<le> 1 / 1048576"
    using exp_20_lower by (simp add: exp_minus inverse_eq_divide divide_le_eq mult.commute pos_le_divide_eq)
  then have "1 + exp (- 20 :: real) \<le> 1 + 1 / 1048576" by simp
  then have "1 / (1 + 1 / 1048576) \<le> 1 / (1 + exp (- 20 :: real))"
    by (intro divide_left_mono) (simp_all add: add_pos_pos)
  then show ?thesis by (simp add: sigmoid_def alpha_def)
qed

lemma unshrink_range:
  "- 256 * alpha * 0.5 / (1 - alpha) < 256 * (sigmoid v - alpha * 0.5) / (1 - alpha)"
  "256 * (sigmoid v - alpha * 0.5) / (1 - alpha) < 256 * (1 - alpha * 0.5) / (1 - alpha)"
  using sigmoid_bounds [of v] by (simp_all add: alpha_def divide_strict_right_mono)

lemma sample_prior_one:
  "sample_prior 1 d g = ([map (\<lambda>i. normal g (pos g + i)) [0..<d]], g \<lparr> pos := pos g + d \<rparr>)"
  by (simp add: randn_def)

lemma sample_row_reaches:
  assumes "Flow_wf (flow m) d" "Flow_binary (flow m)" "length y = d"
  shows "\<exists>z. length z = d \<and>
     sample_row m z = Inr (map (\<lambda>v. (sigmoid v - alpha * 0.5) / (1 - alpha) * 256) y)"
proof -
  from assms have "\<forall>c \<in> set (layers (flow m)). Coupling_wf c \<and> c_in c = d \<and> binary (mask c)"
    by (simp add: Flow_wf_def Flow_binary_def)
  from apply_layers_inverse [OF this assms(3), of 0] obtain z l1
    where z: "length z = d" "\<forall>l2. apply_layers (rev (layers (flow m))) True z l2 = Inr (y, l2)"
    by blast
  then have "sample_row m z = Inr (map (\<lambda>v. (sigmoid v - alpha * 0.5) / (1 - alpha) * 256) y)"
    by (simp add: sample_row_def Flow_forward_def logit_normalize_True_eq)
  with z(1) show ?thesis by blast
qed

lemma Model_sample_reaches:
  assumes "Flow_wf (flow m) d" "Flow_binary (flow m)" "z_shape (flow m) = [d]" "length y = d"
  shows "\<exists>g g'. Model_sample m 1 g =
     Inr ([map (\<lambda>v. (sigmoid v - alpha * 0.5) / (1 - alpha) * 256) y], g')"
proof -
  from sample_row_reaches [OF assms(1,2,4)] obtain z where z: "length z = d"
    "sample_row m z = Inr (map (\<lambda>v. (sigmoid v - alpha * 0.5) / (1 - alpha) * 256) y)" by blast
  let ?g = "\<lparr> uniform = (\<lambda>i. 0), normal = (\<lambda>i. z ! i), pos = 0 \<rparr>"
  have "map (\<lambda>i. normal ?g (pos ?g + i)) [0..<d] = z"
    using z(1) map_nth [of z] by simp
  then have "Model_sample m 1 ?g =
     Inr ([map (\<lambda>v. (sigmoid v - alpha * 0.5) / (1 - alpha) * 256) y], ?g \<lparr> pos := pos ?g + d \<rparr>)"
    by (simp add: Model_sample_def assms(3) sample_prior_one z(2) del: One_nat_def)
  then show ?thesis by blast
qed

text \<open>
  C10. The reverse normalization maps a latent \<open>y\<close> elementwise to
  \<open>256 * (sigmoid y - alpha * 0.5) / (1 - alpha)\<close>, a number strictly between
  \<open>- 256 * alpha * 0.5 / (1 - alpha)\<close> and \<open>256 * (1 - alpha * 0.5) / (1 - alpha)\<close>. For a
  model whose flow has well-formed shapes and binary masks, some draw of the prior makes
  \<open>Model.sample\<close> return values below 0, and some draw values above 256: the sample is not
  confined to the pixel range.
\<close>

theorem sample_leaves_pixel_range:
  assumes "Flow_wf (flow m) d" "Flow_binary (flow m)" "z_shape (flow m) = [d]"
  shows "(\<exists>ldj'. logit_normalize y ldj True =
            Inr (map (\<lambda>v. 256 * (sigmoid v - alpha * 0.5) / (1 - alpha)) y, ldj')) \<and>
         (\<forall>v. - 256 * alpha * 0.5 / (1 - alpha) < 256 * (sigmoid v - alpha * 0.5) / (1 - alpha) \<and>
              256 * (sigmoid v - alpha * 0.5) / (1 - alpha) < 256 * (1 - alpha * 0.5) / (1 - alpha)) \<and>
         (\<exists>g x g'. Model_sample m 1 g = Inr ([x], g') \<and> length x = d \<and> (\<forall>v \<in> set x. v < 0)) \<and>
         (\<exists>g x g'. Model_sample m 1 g = Inr ([x], g') \<and> length x = d \<and> (\<forall>v \<in> set x. 256 < v))"
proof (intro conjI)
  show "\<exists>ldj'. logit_normalize y ldj True =
            Inr (map (\<lambda>v. 256 * (sigmoid v - alpha * 0.5) / (1 - alpha)) y, ldj')"
    by (simp add: logit_normalize_True_eq)
  show "\<forall>v. - 256 * alpha * 0.5 / (1 - alpha) < 256 * (sigmoid v - alpha * 0.5) / (1 - alpha) \<and>
              256 * (sigmoid v - alpha * 0.5) / (1 - alpha) < 256 * (1 - alpha * 0.5) / (1 - alpha)"
    using unshrink_range by blast
  have lo: "(sigmoid (- 20) - alpha * 0.5) / (1 - alpha) * 256 < 0"
    using sigmoid_minus_20 by (simp add: alpha_def divide_less_0_iff)
  have hi: "256 < (sigmoid 20 - alpha * 0.5) / (1 - alpha) * 256"
    using sigmoid_20 by (simp add: alpha_def)
  from Model_sample_reaches [OF assms, of "replicate d (- 20)"] lo
  show "\<exists>g x g'. Model_sample m 1 g = Inr ([x], g') \<and> length x = d \<and> (\<forall>v \<in> set x. v < 0)"
    by fastforce
  from Model_sample_reaches [OF assms, of "replicate d 20"] hi
  show "\<exists>g x g'. Model_sample m 1 g = Inr ([x], g') \<and> length x = d \<and> (\<forall>v \<in> set x. 256 < v)"
    by fastforce
qed

theorem sample_leaves_pixel_range_witness:
  "Flow_wf (flow example_model) 2 \<and> Flow_binary (flow example_model) \<and>
   z_shape (flow example_model) = [2] \<and>
   (\<exists>g x g'. Model_sample example_model 1 g = Inr ([x], g') \<and> length x = 2 \<and>
      list_all (\<lambda>v. v < 0) x) \<and>
   (\<exists>g x g'. Model_sample example_model 1 g = Inr ([x], g') \<and> length x = 2 \<and>
      list_all (\<lambda>v. 256 < v) x)"
proof -
  have a: "Flow_wf (flow example_model) 2" and b: "Flow_binary (flow example_model)"
    using example_flow_wf example_flow_binary by (simp_all add: example_model_def)
  have c: "z_shape (flow example_model) = [2]"
    by (simp add: example_model_def example_flow_def)
  from sample_leaves_pixel_range [OF a b c, of "[0, 0]" 0] a b c show ?thesis
    unfolding list_all_iff by blast
qed

section \<open>The likelihood of the model\<close>

lemma shrunk_bounds: "0 \<le> v \<Longrightarrow> v < 256 \<Longrightarrow> 0 < shrunk v \<and> shrunk v < 1"
  using shrink_bounds [of v] by (simp add: shrunk_def)

lemma shrunk_deriv: "(shrunk has_real_derivative (1 - alpha) / 256) (at v)"
proof -
  have "((\<lambda>v. v / 256 * (1 - alpha) + alpha * 0.5) has_real_derivative (1 - alpha) / 256) (at v)"
    by (auto intro!: derivative_eq_intros)
  moreover have "shrunk = (\<lambda>v. v / 256 * (1 - alpha) + alpha * 0.5)"
    by (rule ext) (simp add: shrunk_def)
  ultimately show ?thesis by simp
qed

lemma slope_algebra: "1 / a * c - 1 / b * (0 - c) = c * (1 / a + 1 / (b::real))"
  by (simp add: algebra_simps)

lemma logit_of_pixel_deriv:
  assumes "0 \<le> v" "v < 256"
  shows "(logit_of_pixel has_real_derivative logit_of_pixel_slope v) (at v)"
proof -
  from shrunk_bounds [OF assms] have s: "0 < shrunk v" "0 < 1 - shrunk v" by simp_all
  have d1: "((\<lambda>v. ln (shrunk v)) has_real_derivative 1 / shrunk v * ((1 - alpha) / 256)) (at v)"
    by (rule DERIV_chain' [OF shrunk_deriv DERIV_ln_divide [OF s(1)]])
  have "((\<lambda>v. 1 - shrunk v) has_real_derivative 0 - (1 - alpha) / 256) (at v)"
    by (rule DERIV_diff [OF DERIV_const shrunk_deriv])
  from DERIV_chain' [OF this DERIV_ln_divide [OF s(2)]]
  have d2: "((\<lambda>v. ln (1 - shrunk v)) has_real_derivative
      1 / (1 - shrunk v) * (0 - (1 - alpha) / 256)) (at v)" .
  have "((\<lambda>v. ln (shrunk v) - ln (1 - shrunk v)) has_real_derivative
      1 / shrunk v * ((1 - alpha) / 256) - 1 / (1 - shrunk v) * (0 - (1 - alpha) / 256)) (at v)"
    by (rule DERIV_diff [OF d1 d2])
  moreover have "1 / shrunk v * ((1 - alpha) / 256) - 1 / (1 - shrunk v) * (0 - (1 - alpha) / 256)
      = logit_of_pixel_slope v"
    unfolding logit_of_pixel_slope_def by (rule slope_algebra)
  moreover have "logit_of_pixel = (\<lambda>v. ln (shrunk v) - ln (1 - shrunk v))"
    by (rule ext) (simp add: logit_of_pixel_def)
  ultimately show ?thesis by simp
qed

lemma logit_of_pixel_slope_pos:
  assumes "0 \<le> v" "v < 256"
  shows "0 < logit_of_pixel_slope v"
proof -
  from shrunk_bounds [OF assms] have s: "0 < shrunk v" "0 < 1 - shrunk v" by simp_all
  then have "0 < 1 / shrunk v + 1 / (1 - shrunk v)" by (simp add: add_pos_pos)
  moreover have "0 < (1 - alpha) / 256" by (simp add: alpha_def)
  ultimately show ?thesis unfolding logit_of_pixel_slope_def by (rule mult_pos_pos [rotated])
qed

lemma ln_logit_of_pixel_slope:
  assumes "0 \<le> v" "v < 256"
  shows "ln (logit_of_pixel_slope v) = ln (1 - alpha) - ln 256 - ln (shrunk v) - ln (1 - shrunk v)"
proof -
  from shrunk_bounds [OF assms] have s: "0 < shrunk v" "0 < 1 - shrunk v" by simp_all
  have a: "0 < 1 - alpha" by (simp add: alpha_def)
  have "1 / shrunk v + 1 / (1 - shrunk v) = 1 / (shrunk v * (1 - shrunk v))"
    using s by (simp add: field_simps)
  then have "logit_of_pixel_slope v = (1 - alpha) / (256 * (shrunk v * (1 - shrunk v)))"
    by (simp add: logit_of_pixel_slope_def)
  also have "ln \<dots> = ln (1 - alpha) - ln (256 * (shrunk v * (1 - shrunk v)))"
    using a s by (intro ln_divide_pos) (simp_all add: mult_pos_pos)
  also have "ln (256 * (shrunk v * (1 - shrunk v))) = ln 256 + (ln (shrunk v) + ln (1 - shrunk v))"
    using s by (simp add: ln_mult_pos mult_pos_pos)
  finally show ?thesis by simp
qed

lemma Coupling_forward_False_shift:
  assumes "Coupling_wf c" "length z = c_in c"
  shows "\<exists>z' s. length z' = c_in c \<and> (\<forall>l. Coupling_forward c z l False = Inr (z', l + s))"
proof -
  from assms have lm: "length (mask c) = c_in c" by (simp add: Coupling_wf_def)
  from network_output_wf [OF assms] obtain h t
    where ht: "network_output c z = Inr (h, t)" "length h = c_in c" "length t = c_in c" by blast
  from Coupling_forward_False_eq [OF ht lm assms(2)] show ?thesis
    by (intro exI conjI allI) (auto simp: )
qed

lemma apply_layers_False_shift:
  "\<forall>c \<in> set ls. Coupling_wf c \<and> c_in c = d \<Longrightarrow> length z = d \<Longrightarrow>
   \<exists>z' s. length z' = d \<and> (\<forall>l. apply_layers ls False z l = Inr (z', l + s))"
proof (induction ls arbitrary: z)
  case Nil
  have "\<forall>l. apply_layers [] False z l = Inr (z, l + 0)" by simp
  with Nil show ?case by blast
next
  case (Cons c cs)
  then have "Coupling_wf c" "length z = c_in c" by simp_all
  from Coupling_forward_False_shift [OF this] obtain z1 s1
    where z1: "length z1 = c_in c" "\<forall>l. Coupling_forward c z l False = Inr (z1, l + s1)" by blast
  with Cons.prems have "length z1 = d" by simp
  moreover from Cons.prems have "\<forall>c \<in> set cs. Coupling_wf c \<and> c_in c = d" by simp
  ultimately obtain z' s where z': "length z' = d" "\<forall>l. apply_layers cs False z1 l = Inr (z', l + s)"
    using Cons.IH by blast
  have "\<forall>l. apply_layers (c # cs) False z l = Inr (z', l + (s1 + s))"
    by (simp add: z1(2) z'(2) add.assoc)
  with z'(1) show ?case by blast
qed

lemma forward_row_accumulates:
  assumes "Flow_wf (flow m) (length v)" "\<forall>e \<in> set v. 0 \<le> e \<and> e < 256"
  shows "\<exists>z1 l1 z2 l2. logit_normalize v 0 False = Inr (z1, l1) \<and>
     Flow_forward (flow m) z1 0 False = Inr (z2, l2) \<and>
     forward_row m v = Inr (log_prior z2 + (l1 + l2))"
proof -
  from logit_normalize_False_eq [OF assms(2), of 0] obtain z1 l1
    where n: "logit_normalize v 0 False = Inr (z1, l1)" "length z1 = length v" by simp
  from assms(1) have "\<forall>c \<in> set (layers (flow m)). Coupling_wf c \<and> c_in c = length v"
    by (simp add: Flow_wf_def)
  from apply_layers_False_shift [OF this n(2)] obtain z2 s
    where f: "\<forall>l. apply_layers (layers (flow m)) False z1 l = Inr (z2, l + s)" by blast
  then have "Flow_forward (flow m) z1 0 False = Inr (z2, s)"
    "Flow_forward (flow m) z1 l1 False = Inr (z2, l1 + s)"
    by (simp_all add: Flow_forward_def)
  with n(1) show ?thesis by (simp add: forward_row_def encode_def)
qed

lemma apply_layers_identity:
  "\<forall>c \<in> set ls. \<forall>z l. length z = n \<longrightarrow> Coupling_forward c z l False = Inr (z, l) \<Longrightarrow>
   length z = n \<Longrightarrow> apply_layers ls False z l = Inr (z, l)"
  by (induction ls) simp_all

lemma Model_init_flow: "Model_init [784] draws = Inr m \<Longrightarrow> Flow_init [784] 4 draws = Inr (flow m)"
  by (auto simp: Model_init_def Flow_init_def)

lemma fresh_flow_identity:
  assumes "Flow_init [784] n_flows draws = Inr f" "length z = 784"
  shows "Flow_forward f z l False = Inr (z, l)"
proof -
  from assms(1) have ls: "layers f = concat (map (\<lambda>i.
                   [Coupling_init 784 get_mask 1024 (draws (2 * i)),
                    Coupling_init 784 (one_minus get_mask) 1024 (draws (2 * i + 1))])
                   [0..<n_flows])"
    by (auto simp: Flow_init_def)
  have id: "Coupling_forward (Coupling_init 784 msk 1024 d) z' l' False = Inr (z', l')"
    if "length msk = 784" "length z' = 784" for msk d z' l'
    using Coupling_forward_zero_output(1) [OF Coupling_init_output [of 784 msk z' 1024 d]] that
    by (simp add: Coupling_init_fields)
  have "\<forall>c \<in> set (layers f). \<forall>z l. length z = 784 \<longrightarrow> Coupling_forward c z l False = Inr (z, l)"
    unfolding ls using id by (auto simp: length_get_mask one_minus_def)
  from apply_layers_identity [OF this assms(2)] show ?thesis
    by (simp add: Flow_forward_def)
qed

lemma sum_list_shift:
  "sum_list (map (\<lambda>e. c + f e) v) = c * real (length v) + sum_list (map f v)"
  by (induction v) (simp_all add: algebra_simps)

lemma encode_fresh:
  assumes "Model_init [784] draws = Inr m" "length v = 784" "\<forall>e \<in> set v. 0 \<le> e \<and> e < 256"
  shows "encode m v =
     Inr (map logit_of_pixel v, (\<Sum>e\<leftarrow>v. ln (logit_of_pixel_slope e)) - 784 * ln (1 - alpha))"
proof -
  let ?l = "0 - ln 256 * real (length v) + (\<Sum>e\<leftarrow>v. - ln (shrunk e) - ln (1 - shrunk e))"
  have n: "logit_normalize v 0 False = Inr (map logit_of_pixel v, ?l)"
    using logit_normalize_False_eq [OF assms(3), of 0]
    by (simp add: logit_of_pixel_def [abs_def] shrunk_def [abs_def])
  have "(\<Sum>e\<leftarrow>v. ln (logit_of_pixel_slope e)) =
        (\<Sum>e\<leftarrow>v. (ln (1 - alpha) - ln 256) + (- ln (shrunk e) - ln (1 - shrunk e)))"
    using assms(3) by (intro arg_cong [where f = sum_list] map_cong refl)
      (simp add: ln_logit_of_pixel_slope)
  also have "\<dots> = (ln (1 - alpha) - ln 256) * real (length v) + (\<Sum>e\<leftarrow>v. - ln (shrunk e) - ln (1 - shrunk e))"
    by (rule sum_list_shift)
  finally have "?l = (\<Sum>e\<leftarrow>v. ln (logit_of_pixel_slope e)) - 784 * ln (1 - alpha)"
    using assms(2) by (simp add: algebra_simps)
  moreover have "Flow_forward (flow m) (map logit_of_pixel v) ?l False = Inr (map logit_of_pixel v, ?l)"
    using fresh_flow_identity [OF Model_init_flow [OF assms(1)]] assms(2) by simp
  ultimately show ?thesis using n by (simp add: encode_def)
qed

lemma ln_one_minus_alpha: "ln (1 - alpha) < 0"
  by (simp add: alpha_def)

lemma Model_forward_one_row:
  "Model_forward m [x] g =
     rbind (forward_row m (fst (dequantize x g))) (\<lambda>lp. Inr ([lp], snd (dequantize x g)))"
  by (cases "dequantize x g"; cases "forward_row m (fst (dequantize x g))")
     (simp_all add: Model_forward_def)

lemma dequantize_example:
  "dequantize (replicate n 0) example_generator =
     (replicate n (1 / 2), example_generator \<lparr> pos := n \<rparr>)"
proof -
  have "map2 (+) (replicate n 0) (map (\<lambda>i. 1 / 2) [0..<n]) = replicate n (1 / 2 :: real)"
    by (intro nth_equalityI) simp_all
  then show ?thesis
    by (simp add: dequantize_def rand_like_def example_generator_def)
qed

lemma Model_forward_draws:
  "map_sum id fst (Model_forward m input g) =
     collect (map (forward_row m) (fst (dequantize_rows input g)))"
  by (cases "dequantize_rows input g"; cases "collect (map (forward_row m) (fst (dequantize_rows input g)))")
     (simp_all add: Model_forward_def)

lemma Model_sample_draws:
  "z_shape (flow m) = [d] \<Longrightarrow>
   map_sum id fst (Model_sample m n g) = collect (map (sample_row m) (fst (sample_prior n d g)))"
  by (cases "sample_prior n d g"; cases "collect (map (sample_row m) (fst (sample_prior n d g)))")
     (simp_all add: Model_sample_def)

section \<open>Claims about the likelihood model\<close>

text \<open>
  C3. \<open>Model.forward\<close> starts every example at \<open>ldj = 0\<close>, adds the contributions of the
  normalization and of every coupling layer (\<open>forward_row_accumulates\<close>), and returns
  \<open>log_prior z + ldj\<close>. The claim that this is the exact log-likelihood under the change of
  variables fails: the shrink \<open>z * (1 - alpha) + alpha * 0.5\<close> scales every dimension by
  \<open>1 - alpha\<close> and adds nothing to \<open>ldj\<close>. For the freshly constructed model, where every
  coupling layer is the identity, the map from the dequantized input to \<open>z\<close> is
  \<open>logit_of_pixel\<close> on every entry, its Jacobian is diagonal with positive entries
  \<open>logit_of_pixel_slope v\<close>, and the \<open>ldj\<close> of the code is the sum of their logarithms minus
  \<open>784 * ln (1 - alpha)\<close>, a positive excess: it holds for every batch of one example
  with pixel values in \<open>[0, 255]\<close> and noise in \<open>[0, 1)\<close>.
\<close>

theorem Model_forward_omits_shrink_term:
  assumes "Model_init [784] draws = Inr m" "length x = 784"
    "\<forall>v \<in> set x. 0 \<le> v \<and> v \<le> 255" "\<forall>i. 0 \<le> uniform g i \<and> uniform g i < 1"
  shows "\<exists>ldj.
     encode m (fst (dequantize x g)) = Inr (map logit_of_pixel (fst (dequantize x g)), ldj) \<and>
     Model_forward m [x] g =
       Inr ([log_prior (map logit_of_pixel (fst (dequantize x g))) + ldj], snd (dequantize x g)) \<and>
     (\<forall>v \<in> set (fst (dequantize x g)).
        (logit_of_pixel has_real_derivative logit_of_pixel_slope v) (at v) \<and>
        0 < logit_of_pixel_slope v) \<and>
     ldj = (\<Sum>v\<leftarrow>fst (dequantize x g). ln (logit_of_pixel_slope v)) - 784 * ln (1 - alpha) \<and>
     ln (1 - alpha) < 0"
proof -
  let ?v = "fst (dequantize x g)"
  let ?ldj = "(\<Sum>v\<leftarrow>?v. ln (logit_of_pixel_slope v)) - 784 * ln (1 - alpha)"
  have len: "length ?v = 784"
    using assms(2) by (simp add: dequantize_def rand_like_def)
  have rng: "\<forall>e \<in> set ?v. 0 \<le> e \<and> e < 256"
    by (rule dequantize_bounds [OF assms(3,4)])
  have e: "encode m ?v = Inr (map logit_of_pixel ?v, ?ldj)"
    by (rule encode_fresh [OF assms(1) len rng])
  then have "Model_forward m [x] g = Inr ([log_prior (map logit_of_pixel ?v) + ?ldj], snd (dequantize x g))"
    by (simp add: Model_forward_one_row forward_row_def)
  moreover have "\<forall>v \<in> set ?v. (logit_of_pixel has_real_derivative logit_of_pixel_slope v) (at v) \<and>
        0 < logit_of_pixel_slope v"
    using rng logit_of_pixel_deriv logit_of_pixel_slope_pos by blast
  ultimately show ?thesis using e ln_one_minus_alpha by blast
qed

theorem Model_forward_omits_shrink_term_witness:
  "\<exists>m. Model_init [784] (\<lambda>k. zero_draw) = Inr m \<and> length (replicate 784 (0::real)) = 784 \<and>
     list_all (\<lambda>v. 0 \<le> v \<and> v \<le> 255) (replicate 784 (0::real)) \<and>
     (\<forall>i. 0 \<le> uniform example_generator i \<and> uniform example_generator i < 1) \<and>
     Model_forward m [replicate 784 0] example_generator =
       Inr ([log_prior (replicate 784 (logit_of_pixel (1 / 2))) +
             (784 * ln (logit_of_pixel_slope (1 / 2)) - 784 * ln (1 - alpha))],
            example_generator \<lparr> pos := 784 \<rparr>) \<and>
     (logit_of_pixel has_real_derivative logit_of_pixel_slope (1 / 2)) (at (1 / 2)) \<and>
     ln (1 - alpha) < 0"
proof -
  obtain m where m: "Model_init [784] (\<lambda>k. zero_draw) = Inr m"
    by (simp add: Model_init_def Flow_init_def)
  have a: "length (replicate 784 (0::real)) = 784" by simp
  have b: "\<forall>v \<in> set (replicate 784 (0::real)). 0 \<le> v \<and> v \<le> 255" by simp
  have c: "\<forall>i. 0 \<le> uniform example_generator i \<and> uniform example_generator i < 1"
    by (simp add: example_generator_def)
  from Model_forward_omits_shrink_term [OF m a b c]
  have "Model_forward m [replicate 784 0] example_generator =
       Inr ([log_prior (replicate 784 (logit_of_pixel (1 / 2))) +
             (784 * ln (logit_of_pixel_slope (1 / 2)) - 784 * ln (1 - alpha))],
            example_generator \<lparr> pos := 784 \<rparr>)"
    and "(logit_of_pixel has_real_derivative logit_of_pixel_slope (1 / 2)) (at (1 / 2))"
    and "ln (1 - alpha) < 0"
    by (auto simp: dequantize_example sum_list_replicate)
  with m a b c show ?thesis by (auto simp: list_all_iff)
qed

text \<open>
  C9. \<open>Coupling.forward\<close>, \<open>Flow.forward\<close> and \<open>logit_normalize\<close> take no random number:
  equal arguments give equal results. \<open>Model.forward\<close> depends on the generator only
  through the noise that \<open>dequantize\<close> draws, and \<open>Model.sample\<close> only through the rows
  that \<open>sample_prior\<close> draws; both draws do depend on the generator.
\<close>

theorem randomness_only_in_draws:
  "(z = z' \<and> ldj = ldj' \<and> reverse = reverse' \<longrightarrow>
      Coupling_forward c z ldj reverse = Coupling_forward c z' ldj' reverse') \<and>
   (z = z' \<and> ldj = ldj' \<and> reverse = reverse' \<longrightarrow>
      Flow_forward f z ldj reverse = Flow_forward f z' ldj' reverse') \<and>
   (z = z' \<and> ldj = ldj' \<and> reverse = reverse' \<longrightarrow>
      logit_normalize z ldj reverse = logit_normalize z' ldj' reverse') \<and>
   (fst (dequantize_rows input g) = fst (dequantize_rows input g') \<longrightarrow>
      map_sum id fst (Model_forward m input g) = map_sum id fst (Model_forward m input g')) \<and>
   (z_shape (flow m) = [d] \<and> fst (sample_prior n d g) = fst (sample_prior n d g') \<longrightarrow>
      map_sum id fst (Model_sample m n g) = map_sum id fst (Model_sample m n g')) \<and>
   (\<exists>g g'. fst (dequantize [0] g) \<noteq> fst (dequantize [0] g')) \<and>
   (\<exists>g g'. fst (sample_prior 1 1 g) \<noteq> fst (sample_prior 1 1 g'))"
proof (intro conjI impI)
  assume "fst (dequantize_rows input g) = fst (dequantize_rows input g')"
  then show "map_sum id fst (Model_forward m input g) = map_sum id fst (Model_forward m input g')"
    by (simp add: Model_forward_draws)
next
  assume "z_shape (flow m) = [d] \<and> fst (sample_prior n d g) = fst (sample_prior n d g')"
  then show "map_sum id fst (Model_sample m n g) = map_sum id fst (Model_sample m n g')"
    by (simp add: Model_sample_draws)
next
  have "fst (dequantize [0] example_generator) \<noteq>
        fst (dequantize [0] (example_generator \<lparr> uniform := \<lambda>i. 0 \<rparr>))"
    by (simp add: dequantize_def rand_like_def example_generator_def)
  then show "\<exists>g g'. fst (dequantize [0] g) \<noteq> fst (dequantize [0] g')" by blast
next
  have "fst (sample_prior 1 1 example_generator) \<noteq>
        fst (sample_prior 1 1 (example_generator \<lparr> normal := \<lambda>i. 1 \<rparr>))"
    by (simp add: sample_prior_one example_generator_def del: One_nat_def)
  then show "\<exists>g g'. fst (sample_prior 1 1 g) \<noteq> fst (sample_prior 1 1 g')" by blast
qed simp_all

theorem randomness_only_in_draws_witness:
  "fst (dequantize_rows [[0, 255]] example_generator) =
     fst (dequantize_rows [[0, 255]] (example_generator \<lparr> normal := \<lambda>i. 1 \<rparr>)) \<and>
   map_sum id fst (Model_forward example_model [[0, 255]] example_generator) =
     map_sum id fst (Model_forward example_model [[0, 255]] (example_generator \<lparr> normal := \<lambda>i. 1 \<rparr>)) \<and>
   z_shape (flow example_model) = [2] \<and>
   fst (sample_prior 3 2 example_generator) =
     fst (sample_prior 3 2 (example_generator \<lparr> uniform := \<lambda>i. 0 \<rparr>)) \<and>
   map_sum id fst (Model_sample example_model 3 example_generator) =
     map_sum id fst (Model_sample example_model 3 (example_generator \<lparr> uniform := \<lambda>i. 0 \<rparr>)) \<and>
   Coupling_forward example_coupling [3, 5] 7 False = Coupling_forward example_coupling [3, 5] 7 False"
proof -
  have a: "fst (dequantize_rows [[0, 255]] example_generator) =
     fst (dequantize_rows [[0, 255]] (example_generator \<lparr> normal := \<lambda>i. 1 \<rparr>))"
    by (simp add: dequantize_def rand_like_def example_generator_def)
  have b: "z_shape (flow example_model) = [2]"
    by (simp add: example_model_def example_flow_def)
  have c: "fst (sample_prior 3 2 example_generator) =
     fst (sample_prior 3 2 (example_generator \<lparr> uniform := \<lambda>i. 0 \<rparr>))"
    by (simp add: numeral_3_eq_3 randn_def example_generator_def split: prod.splits)
  note t = randomness_only_in_draws [of "[3, 5]" "[3, 5]" 7 7 False False example_coupling
      example_flow "[[0, 255]]" example_generator "example_generator \<lparr> normal := \<lambda>i. 1 \<rparr>"
      example_model 2 3]
  from t a have "map_sum id fst (Model_forward example_model [[0, 255]] example_generator) =
     map_sum id fst (Model_forward example_model [[0, 255]] (example_generator \<lparr> normal := \<lambda>i. 1 \<rparr>))"
    by blast
  moreover from randomness_only_in_draws [of _ _ _ _ _ _ _ _ _ example_generator
      "example_generator \<lparr> uniform := \<lambda>i. 0 \<rparr>" example_model 2 3] b c
  have "map_sum id fst (Model_sample example_model 3 example_generator) =
     map_sum id fst (Model_sample example_model 3 (example_generator \<lparr> uniform := \<lambda>i. 0 \<rparr>))"
    by blast
  ultimately show ?thesis using a b c by simp
qed

end
